theory Spec2Isabelle
  imports Complex_Main "HOL-Library.Char_ord" "HOL-Library.List_Lexorder" "HOL-Library.AList"
begin

section \<open>Errors\<close>

text \<open>
  The Python exceptions the modelled code raises. A \<open>ValueError\<close> carries a short form
  of the message the source builds, so that the two \<open>ValueError\<close>s of
  \<open>received_job_from_worker\<close> stay apart. \<open>RuntimeError\<close> is what h5py raises when a
  name is taken, \<open>UserException\<close> an exception of the user's processing function.
\<close>

datatype error =
    IndexError
  | KeyError
  | ValueError string
  | TypeError string
  | NotImplementedError
  | RuntimeError string
  | UserException string

section \<open>The job queue (utils.py, class JobQueueHelper)\<close>

text \<open>
  \<open>Job\<close> objects are mutable and shared between the lists of the helper
  (\<open>_all_jobs\<close>, \<open>_in_queue\<close>, the workers' \<open>active_jobs\<close>, \<open>_finished_jobs\<close>), and
  \<open>list.remove\<close> compares them by identity (the class defines no \<open>__eq__\<close>). The model
  keeps the objects in a store, \<open>job_objs\<close>, indexed by address; the lists hold addresses.
\<close>

type_synonym addr = nat

record ('a, 'r) job =
  arguments :: 'a
  result :: "'r option"

text \<open>
  \<open>Worker = namedtuple("Worker", ["active_jobs", "completed_jobs_count"])\<close>; the count is
  the single element of a one-element list in the source.
\<close>

record worker =
  active_jobs :: "addr list"
  completed_jobs_count :: nat

text \<open>Worker names are the ranks the master passes (the source formats them with \<open>%i\<close>).\<close>

type_synonym worker_name = int

record ('a, 'r) job_queue_helper =
  job_objs :: "('a, 'r) job list"
  all_jobs :: "addr list"
  in_queue :: "addr list"
  finished_jobs :: "addr list"
  poison_pills_received :: nat
  workers :: "worker_name \<rightharpoonup> worker"

definition new_worker :: worker where
  "new_worker = \<lparr>active_jobs = [], completed_jobs_count = 0\<rparr>"

text \<open>\<open>JobQueueHelper.__init__(jobs, worker_names)\<close>.\<close>

definition JobQueueHelper_init ::
  "'a list \<Rightarrow> worker_name list \<Rightarrow> ('a, 'r) job_queue_helper" where
  "JobQueueHelper_init jobs worker_names =
     \<lparr>job_objs = map (\<lambda>a. \<lparr>arguments = a, result = None\<rparr>) jobs,
      all_jobs = [0..<length jobs],
      in_queue = [0..<length jobs],
      finished_jobs = [],
      poison_pills_received = 0,
      workers = map_of (map (\<lambda>w. (w, new_worker)) worker_names)\<rparr>"

text \<open>\<open>poison_pill_received(self)\<close>: the call carries no worker name.\<close>

definition poison_pill_received ::
  "('a, 'r) job_queue_helper \<Rightarrow> ('a, 'r) job_queue_helper" where
  "poison_pill_received q = q\<lparr>poison_pills_received := poison_pills_received q + 1\<rparr>"

text \<open>
  \<open>get_job_for_worker(self, worker_name)\<close>. \<open>pop(0)\<close> raises \<open>IndexError\<close> on an empty
  list; the lookup \<open>self._workers[worker_name]\<close> comes after the pop and raises
  \<open>KeyError\<close> for an unknown name. Every operation returns the state it leaves behind,
  also when it raises.
\<close>

definition get_job_for_worker ::
  "worker_name \<Rightarrow> ('a, 'r) job_queue_helper \<Rightarrow> (error + 'a) \<times> ('a, 'r) job_queue_helper" where
  "get_job_for_worker worker_name q =
     (case in_queue q of
        [] \<Rightarrow> (Inl IndexError, q)
      | job # rest \<Rightarrow>
          (let q1 = q\<lparr>in_queue := rest\<rparr> in
           case workers q1 worker_name of
             None \<Rightarrow> (Inl KeyError, q1)
           | Some w \<Rightarrow>
               (Inr (arguments (job_objs q1 ! job)),
                q1\<lparr>workers := (workers q1)(worker_name \<mapsto>
                      w\<lparr>active_jobs := active_jobs w @ [job]\<rparr>)\<rparr>)))"

text \<open>\<open>received_job_from_worker(self, arguments, result, worker_name)\<close>.\<close>

definition matching_jobs :: "('a, 'r) job_queue_helper \<Rightarrow> worker \<Rightarrow> 'a \<Rightarrow> addr list" where
  "matching_jobs q w args = filter (\<lambda>i. arguments (job_objs q ! i) = args) (active_jobs w)"

definition received_job_from_worker ::
  "'a \<Rightarrow> 'r option \<Rightarrow> worker_name \<Rightarrow> ('a, 'r) job_queue_helper
     \<Rightarrow> (error + unit) \<times> ('a, 'r) job_queue_helper" where
  "received_job_from_worker args res worker_name q =
     (case workers q worker_name of
        None \<Rightarrow> (Inl KeyError, q)
      | Some w \<Rightarrow>
          (case matching_jobs q w args of
             [] \<Rightarrow> (Inl (ValueError ''MASTER: Job not found''), q)
           | [job] \<Rightarrow>
               (Inr (),
                q\<lparr>job_objs := (job_objs q)[job := (job_objs q ! job)\<lparr>result := res\<rparr>],
                  workers := (workers q)(worker_name \<mapsto>
                      w\<lparr>active_jobs := remove1 job (active_jobs w),
                        completed_jobs_count := completed_jobs_count w + 1\<rparr>),
                  finished_jobs := finished_jobs q @ [job]\<rparr>)
           | _ \<Rightarrow> (Inl (ValueError ''WTF''), q)))"

text \<open>The properties \<open>queue_empty\<close>, \<open>finished\<close>, \<open>all_done\<close>, \<open>all_poison_pills_received\<close>.\<close>

definition queue_empty :: "('a, 'r) job_queue_helper \<Rightarrow> bool" where
  "queue_empty q = (in_queue q = [])"

definition finished :: "('a, 'r) job_queue_helper \<Rightarrow> nat" where
  "finished q = length (finished_jobs q)"

definition all_done :: "('a, 'r) job_queue_helper \<Rightarrow> bool" where
  "all_done q = (length (all_jobs q) = length (finished_jobs q))"

definition all_poison_pills_received :: "('a, 'r) job_queue_helper \<Rightarrow> bool" where
  "all_poison_pills_received q = (card (dom (workers q)) = poison_pills_received q)"

subsection \<open>Sequences of queue operations\<close>

datatype ('a, 'r) queue_op =
    GetJob worker_name
  | ReceivedJob 'a "'r option" worker_name

text \<open>One call; a \<open>GetJob\<close> that succeeds yields the arguments handed out.\<close>

fun apply_op ::
  "('a, 'r) queue_op \<Rightarrow> ('a, 'r) job_queue_helper
     \<Rightarrow> (error + 'a option) \<times> ('a, 'r) job_queue_helper" where
  "apply_op (GetJob w) q =
     (case get_job_for_worker w q of
        (Inl e, q') \<Rightarrow> (Inl e, q')
      | (Inr a, q') \<Rightarrow> (Inr (Some a), q'))"
| "apply_op (ReceivedJob args res w) q =
     (case received_job_from_worker args res w q of
        (Inl e, q') \<Rightarrow> (Inl e, q')
      | (Inr u, q') \<Rightarrow> (Inr None, q'))"

text \<open>
  A sequence of calls, all of which succeed: the arguments handed out, in order, and the
  final state. \<open>None\<close> when some call raises.
\<close>

fun run_ops ::
  "('a, 'r) queue_op list \<Rightarrow> ('a, 'r) job_queue_helper
     \<Rightarrow> ('a list \<times> ('a, 'r) job_queue_helper) option" where
  "run_ops [] q = Some ([], q)"
| "run_ops (opn # ops) q =
     (case apply_op opn q of
        (Inl e, q') \<Rightarrow> None
      | (Inr out, q') \<Rightarrow>
          (case run_ops ops q' of
             None \<Rightarrow> None
           | Some (outs, q'') \<Rightarrow> Some ((case out of None \<Rightarrow> [] | Some a \<Rightarrow> [a]) @ outs, q'')))"

text \<open>The three sets of the ledger, as sets of job objects.\<close>

definition pending :: "('a, 'r) job_queue_helper \<Rightarrow> addr set" where
  "pending q = set (in_queue q)"

definition active :: "('a, 'r) job_queue_helper \<Rightarrow> addr set" where
  "active q = {j. \<exists>w wk. workers q w = Some wk \<and> j \<in> set (active_jobs wk)}"

definition finished_set :: "('a, 'r) job_queue_helper \<Rightarrow> addr set" where
  "finished_set q = set (finished_jobs q)"

text \<open>
  The invariant of the ledger for \<open>n\<close> initial jobs: the lists hold no job twice, no job is
  active on two workers, and the three sets partition the addresses \<open>0..<n\<close>.
\<close>

definition ledger_inv :: "nat \<Rightarrow> ('a, 'r) job_queue_helper \<Rightarrow> bool" where
  "ledger_inv n q =
     (all_jobs q = [0..<n] \<and> distinct (in_queue q) \<and> distinct (finished_jobs q) \<and>
      (\<forall>w wk. workers q w = Some wk \<longrightarrow> distinct (active_jobs wk)) \<and>
      (\<forall>w w' wk wk'. w \<noteq> w' \<longrightarrow> workers q w = Some wk \<longrightarrow> workers q w' = Some wk'
          \<longrightarrow> set (active_jobs wk) \<inter> set (active_jobs wk') = {}) \<and>
      pending q \<inter> active q = {} \<and> pending q \<inter> finished_set q = {} \<and>
      active q \<inter> finished_set q = {} \<and>
      pending q \<union> active q \<union> finished_set q = {0..<n})"

text \<open>One job moves from pending to active, or from active to finished.\<close>

definition moves_one_job ::
  "('a, 'r) job_queue_helper \<Rightarrow> ('a, 'r) job_queue_helper \<Rightarrow> bool" where
  "moves_one_job q q' =
     (\<exists>j. (j \<in> pending q \<and> pending q' = pending q - {j} \<and> active q' = insert j (active q)
            \<and> finished_set q' = finished_set q)
        \<or> (j \<in> active q \<and> pending q' = pending q \<and> active q' = active q - {j}
            \<and> finished_set q' = insert j (finished_set q)))"

text \<open>The jobs active on the workers other than \<open>w\<close>.\<close>

definition others :: "('a, 'r) job_queue_helper \<Rightarrow> worker_name \<Rightarrow> addr set" where
  "others q w = {j. \<exists>w' wk. w' \<noteq> w \<and> workers q w' = Some wk \<and> j \<in> set (active_jobs wk)}"

fun is_get :: "('a, 'r) queue_op \<Rightarrow> bool" where
  "is_get (GetJob w) = True"
| "is_get (ReceivedJob args res w) = False"

section \<open>The master node (asdf_data_set.py, \<open>_dispatch_processing_mpi_master_node\<close>)\<close>

text \<open>
  Modelled from the spec: the message tags of \<open>header.py\<close> (\<open>MSG_TAGS\<close>), which is not
  among the sources; the spec lists the seven tags.
\<close>

datatype msg_tag =
    MASTER_FORCES_WRITE
  | MASTER_SENDS_ITEM
  | ALL_DONE
  | WORKER_REQUESTS_ITEM
  | WORKER_REQUESTS_WRITE
  | WORKER_DONE_WITH_ITEM
  | POISON_PILL_RECEIVED

text \<open>
  Modelled from the spec: \<open>POISON_PILL\<close> of \<open>header.py\<close>, a value distinct from every job's
  arguments. An element of the \<open>MASTER_SENDS_ITEM\<close> channel and of the local input queue
  is either the pill or a job's arguments.
\<close>

datatype 'a item = POISON_PILL | Item 'a

datatype ('a, 'r) payload =
    NoPayload
  | ItemPayload "'a item"
  | DonePayload 'a "'r option"

record ('a, 'r) master_state =
  m_jobs :: "('a, 'r) job_queue_helper"
  workers_requesting_write :: "worker_name list"
  m_sent :: "(('a, 'r) payload \<times> worker_name \<times> msg_tag) list"

text \<open>
  \<open>len(workers_requesting_write) >= 0.5 * self.mpi.comm.size\<close>. The product with \<open>0.5\<close>
  is exact in binary floating point and Python compares an integer with a float by value,
  so the test is the comparison of the two numbers.
\<close>

definition write_threshold_reached :: "int \<Rightarrow> int \<Rightarrow> bool" where
  "write_threshold_reached w comm_size = (0.5 * real_of_int comm_size \<le> real_of_int w)"

text \<open>The condition of line 1142, under which the tick synchronises the metadata.\<close>

definition master_starts_sync :: "int \<Rightarrow> ('a, 'r) master_state \<Rightarrow> bool" where
  "master_starts_sync comm_size st =
     (write_threshold_reached (int (length (workers_requesting_write st))) comm_size \<or>
      (length (workers_requesting_write st) \<noteq> 0 \<and> all_poison_pills_received (m_jobs st)))"

text \<open>\<open>worker_nodes = range(1, self.mpi.comm.size)\<close>.\<close>

definition worker_nodes :: "int \<Rightarrow> worker_name list" where
  "worker_nodes comm_size = [1..comm_size - 1]"

text \<open>The dispatch on the tag of the message the master received (lines 1176 to 1197).\<close>

definition master_dispatch ::
  "msg_tag \<Rightarrow> worker_name \<Rightarrow> ('a, 'r) payload \<Rightarrow> ('a, 'r) master_state
     \<Rightarrow> (error + unit) \<times> ('a, 'r) master_state" where
  "master_dispatch tag source msg st =
     (case tag of
        WORKER_REQUESTS_ITEM \<Rightarrow>
          (if queue_empty (m_jobs st)
           then (Inr (), st\<lparr>m_sent := m_sent st @ [(ItemPayload POISON_PILL, source, MASTER_SENDS_ITEM)]\<rparr>)
           else (case get_job_for_worker source (m_jobs st) of
                   (Inl e, q') \<Rightarrow> (Inl e, st\<lparr>m_jobs := q'\<rparr>)
                 | (Inr station_tag, q') \<Rightarrow>
                     (Inr (), st\<lparr>m_jobs := q',
                                 m_sent := m_sent st @ [(ItemPayload (Item station_tag), source, MASTER_SENDS_ITEM)]\<rparr>)))
      | WORKER_DONE_WITH_ITEM \<Rightarrow>
          (case msg of
             DonePayload station_tag res \<Rightarrow>
               (case received_job_from_worker station_tag res source (m_jobs st) of
                  (r, q') \<Rightarrow> (r, st\<lparr>m_jobs := q'\<rparr>))
           | _ \<Rightarrow> (Inl (TypeError ''cannot unpack''), st))
      | WORKER_REQUESTS_WRITE \<Rightarrow>
          (Inr (), st\<lparr>workers_requesting_write := workers_requesting_write st @ [source]\<rparr>)
      | POISON_PILL_RECEIVED \<Rightarrow> (Inr (), st\<lparr>m_jobs := poison_pill_received (m_jobs st)\<rparr>)
      | _ \<Rightarrow> (Inl NotImplementedError, st))"

datatype tick_action = CollectivePhase | Dispatched

text \<open>
  One pass of the loop body for the message \<open>recv\<close> returns, when the loop gets that far.
  In the collective phase the master sends \<open>MASTER_FORCES_WRITE\<close> to every worker, runs
  \<open>_sync_metadata\<close> (on the output file, modelled below) and empties
  \<open>workers_requesting_write\<close>.
\<close>

definition master_tick ::
  "int \<Rightarrow> msg_tag \<times> worker_name \<times> ('a, 'r) payload \<Rightarrow> ('a, 'r) master_state
     \<Rightarrow> (error + tick_action) \<times> ('a, 'r) master_state" where
  "master_tick comm_size incoming st =
     (if master_starts_sync comm_size st
      then (Inr CollectivePhase,
            st\<lparr>m_sent := m_sent st @ map (\<lambda>rank. (NoPayload, rank, MASTER_FORCES_WRITE)) (worker_nodes comm_size),
               workers_requesting_write := []\<rparr>)
      else (case incoming of (tag, source, msg) \<Rightarrow>
              (case master_dispatch tag source msg st of
                 (Inl e, st') \<Rightarrow> (Inl e, st')
               | (Inr u, st') \<Rightarrow> (Inr Dispatched, st'))))"

text \<open>
  The acknowledgements of a run: the master handles one \<open>POISON_PILL_RECEIVED\<close> message
  from each of the senders, in order.
\<close>

fun receive_acknowledgements ::
  "worker_name list \<Rightarrow> ('a, 'r) master_state \<Rightarrow> ('a, 'r) master_state" where
  "receive_acknowledgements [] st = st"
| "receive_acknowledgements (source # rest) st =
     receive_acknowledgements rest (snd (master_dispatch POISON_PILL_RECEIVED source NoPayload st))"

definition master_init :: "'a list \<Rightarrow> int \<Rightarrow> ('a, 'r) master_state" where
  "master_init station_tags comm_size =
     \<lparr>m_jobs = JobQueueHelper_init station_tags (worker_nodes comm_size),
      workers_requesting_write = [],
      m_sent = []\<rparr>"

text \<open>
  A run of the master: one tick per element, which is the message \<open>recv\<close> returns when the
  tick gets that far (a tick that enters the collective phase receives nothing). The
  result is the list of the senders whose \<open>POISON_PILL_RECEIVED\<close> the master has handled,
  in order, and the state reached; \<open>None\<close> when a tick raises.
\<close>

fun master_run ::
  "int \<Rightarrow> (msg_tag \<times> worker_name \<times> ('a, 'r) payload) list \<Rightarrow> ('a, 'r) master_state
     \<Rightarrow> (worker_name list \<times> ('a, 'r) master_state) option" where
  "master_run comm_size [] st = Some ([], st)"
| "master_run comm_size (incoming # rest) st =
     (case master_tick comm_size incoming st of
        (Inl e, st') \<Rightarrow> None
      | (Inr CollectivePhase, st') \<Rightarrow> master_run comm_size rest st'
      | (Inr Dispatched, st') \<Rightarrow>
          (case master_run comm_size rest st' of
             None \<Rightarrow> None
           | Some (acks, st'') \<Rightarrow>
               Some ((if fst incoming = POISON_PILL_RECEIVED then [fst (snd incoming)] else [])
                       @ acks, st'')))"

section \<open>Strings\<close>

text \<open>
  A text string is modelled as the list of its code points, which are taken to be below
  256 (Isabelle's \<open>char\<close>). \<open>str.strip()\<close> removes the white space of \<open>str.isspace\<close> from
  both ends: tab, line feed, vertical tab, form feed, carriage return, the separators
  \<open>0x1c\<close> to \<open>0x1f\<close>, the space, the next-line character \<open>0x85\<close> and the no-break space
  \<open>0xa0\<close>. \<open>str.lower()\<close> maps \<open>A\<close> to \<open>Z\<close> to \<open>a\<close> to \<open>z\<close> and the capital letters
  \<open>0xc0\<close> to \<open>0xde\<close> (but the multiplication sign \<open>0xd7\<close>) to the letters 32 above.
\<close>

definition py_isspace :: "char \<Rightarrow> bool" where
  "py_isspace c \<longleftrightarrow>
     c \<in> set [CHR 0x09, CHR 0x0A, CHR 0x0B, CHR 0x0C, CHR 0x0D,
              CHR 0x1C, CHR 0x1D, CHR 0x1E, CHR 0x1F, CHR '' '', CHR 0x85, CHR 0xA0]"

definition py_strip :: "string \<Rightarrow> string" where
  "py_strip s = rev (dropWhile py_isspace (rev (dropWhile py_isspace s)))"

definition upper_case :: string where
  "upper_case = ''ABCDEFGHIJKLMNOPQRSTUVWXYZ'' @
     [CHR 0xC0, CHR 0xC1, CHR 0xC2, CHR 0xC3, CHR 0xC4, CHR 0xC5, CHR 0xC6, CHR 0xC7,
      CHR 0xC8, CHR 0xC9, CHR 0xCA, CHR 0xCB, CHR 0xCC, CHR 0xCD, CHR 0xCE, CHR 0xCF,
      CHR 0xD0, CHR 0xD1, CHR 0xD2, CHR 0xD3, CHR 0xD4, CHR 0xD5, CHR 0xD6, CHR 0xD8,
      CHR 0xD9, CHR 0xDA, CHR 0xDB, CHR 0xDC, CHR 0xDD, CHR 0xDE]"

definition lower_case :: string where
  "lower_case = ''abcdefghijklmnopqrstuvwxyz'' @
     [CHR 0xE0, CHR 0xE1, CHR 0xE2, CHR 0xE3, CHR 0xE4, CHR 0xE5, CHR 0xE6, CHR 0xE7,
      CHR 0xE8, CHR 0xE9, CHR 0xEA, CHR 0xEB, CHR 0xEC, CHR 0xED, CHR 0xEE, CHR 0xEF,
      CHR 0xF0, CHR 0xF1, CHR 0xF2, CHR 0xF3, CHR 0xF4, CHR 0xF5, CHR 0xF6, CHR 0xF8,
      CHR 0xF9, CHR 0xFA, CHR 0xFB, CHR 0xFC, CHR 0xFD, CHR 0xFE]"

definition py_lower_char :: "char \<Rightarrow> char" where
  "py_lower_char c = (case map_of (zip upper_case lower_case) c of None \<Rightarrow> c | Some l \<Rightarrow> l)"

definition py_lower :: "string \<Rightarrow> string" where
  "py_lower s = map py_lower_char s"

text \<open>
  \<open>name.split("__")\<close>: the separator is searched from the left, occurrences do not
  overlap. The first argument collects, reversed, the characters of the current piece.
\<close>

fun split_dunder :: "string \<Rightarrow> string \<Rightarrow> string list" where
  "split_dunder acc [] = [rev acc]"
| "split_dunder acc [c] = [rev (c # acc)]"
| "split_dunder acc (c # d # cs) =
     (if c = CHR ''_'' \<and> d = CHR ''_'' then rev acc # split_dunder [] cs
      else split_dunder (c # acc) (d # cs))"

text \<open>\<open>waveform.split("__")[-1]\<close>.\<close>

definition tag_of_name :: "string \<Rightarrow> string" where
  "tag_of_name waveform = last (split_dunder [] waveform)"

section \<open>The container file (asdf_data_set.py, class ASDFDataSet)\<close>

datatype attr = IntAttr int | FloatAttr real | StrAttr string

record dataset =
  ds_shape :: nat
  ds_dtype :: string
  ds_compression :: "string option"
  ds_compression_opts :: "nat option"
  ds_fletcher32 :: bool
  ds_attrs :: "(string \<times> attr) list"
  ds_data :: "real list"

text \<open>
  An HDF5 group is a list of named members with distinct names. The group \<open>Waveforms\<close>
  holds one group per station, which holds the \<open>StationXML\<close> data set and the waveform
  data sets. Codes and tags hold no \<open>/\<close>, so that the path
  \<open>station_name/data_name\<close> has two components.
\<close>

type_synonym h5_group = "(string \<times> dataset) list"

record dataset_creation_params =
  p_name :: string
  p_shape :: nat
  p_dtype :: string
  p_compression :: "string option"
  p_compression_opts :: "nat option"
  p_fletcher32 :: bool

record collective_information =
  info_station_name :: string
  info_data_name :: string
  info_dataset_creation_params :: dataset_creation_params
  info_dataset_attrs :: "(string \<times> attr) list"

text \<open>
  An ObsPy trace: the fields of \<open>trace.stats\<close> the file writer reads, with the two time
  stamps already formatted by \<open>strftime("%Y-%m-%dT%H:%M:%S")\<close> and the start time already
  converted to nanoseconds, and \<open>trace.stats.__info\<close>, where \<open>_sync_metadata\<close> leaves the
  collective information of the trace (\<open>None\<close> when the data set exists already).
\<close>

record trace =
  tr_network :: string
  tr_station :: string
  tr_location :: string
  tr_channel :: string
  tr_starttime :: string
  tr_endtime :: string
  tr_starttime_ns :: int
  tr_sampling_rate :: real
  tr_npts :: nat
  tr_dtype :: string
  tr_data :: "real list"
  tr_asdf_ids :: "(string \<times> string) list"
  tr_info :: "collective_information option"

type_synonym stream = "trace list"

record asdf_data_set =
  waveform_group :: "(string \<times> h5_group) list"
  mpi :: bool
  compression :: "string option \<times> nat option"
  warnings_issued :: "string list"

text \<open>\<open>path in self._waveform_group\<close> for the path \<open>station_name/data_name\<close>.\<close>

definition h5_contains :: "(string \<times> h5_group) list \<Rightarrow> string \<Rightarrow> string \<Rightarrow> bool" where
  "h5_contains wg station_name data_name =
     (case map_of wg station_name of
        None \<Rightarrow> False
      | Some grp \<Rightarrow> data_name \<in> set (map fst grp))"

definition station_name_of :: "trace \<Rightarrow> string" where
  "station_name_of tr = tr_network tr @ ''.'' @ tr_station tr"

definition data_name_of :: "trace \<Rightarrow> string \<Rightarrow> string" where
  "data_name_of tr tag =
     tr_network tr @ ''.'' @ tr_station tr @ ''.'' @ tr_location tr @ ''.'' @ tr_channel tr
       @ ''__'' @ tr_starttime tr @ ''__'' @ tr_endtime tr @ ''__'' @ tag"

text \<open>
  The loop over the four ids: an id that is \<open>None\<close> is taken from \<open>trace.stats.asdf\<close> when
  it is there, and a non-empty id is stored zero padded.
\<close>

definition id_attrs :: "trace \<Rightarrow> (string \<times> string option) list \<Rightarrow> (string \<times> attr) list" where
  "id_attrs tr ids =
     concat (map (\<lambda>(name, obj).
        (case (if obj = None then map_of (tr_asdf_ids tr) name else obj) of
           None \<Rightarrow> []
         | Some s \<Rightarrow> if s = [] then [] else [(name, StrAttr (s @ [CHR 0x00]))])) ids)"

text \<open>
  \<open>_add_trace_get_collective_information(self, trace, tag, event_id, ...)\<close>: no
  information, and a warning, when the data set exists already.
\<close>

definition add_trace_get_collective_information ::
  "asdf_data_set \<Rightarrow> trace \<Rightarrow> string \<Rightarrow> (string \<times> string option) list
     \<Rightarrow> collective_information option \<times> asdf_data_set" where
  "add_trace_get_collective_information ds tr tag ids =
     (let station_name = station_name_of tr;
          data_name = data_name_of tr tag;
          group_name = station_name @ ''/'' @ data_name
      in if h5_contains (waveform_group ds) station_name data_name
         then (None, ds\<lparr>warnings_issued := warnings_issued ds @
                   [''Data '' @ group_name @ '' already exists in file. Will not be added!'']\<rparr>)
         else (Some \<lparr>info_station_name = station_name,
                     info_data_name = group_name,
                     info_dataset_creation_params =
                       \<lparr>p_name = data_name, p_shape = tr_npts tr, p_dtype = tr_dtype tr,
                        p_compression = fst (compression ds),
                        p_compression_opts = snd (compression ds),
                        p_fletcher32 = (\<not> mpi ds)\<rparr>,
                     info_dataset_attrs =
                       [(''starttime'', IntAttr (tr_starttime_ns tr)),
                        (''sampling_rate'', FloatAttr (tr_sampling_rate tr))] @ id_attrs tr ids\<rparr>,
               ds))"

text \<open>
  \<open>_add_trace_write_collective_information(self, info)\<close>. \<open>create_dataset\<close> of h5py raises
  when the group has a member of that name; the new data set holds zeros.
\<close>

definition add_trace_write_collective_information ::
  "collective_information \<Rightarrow> asdf_data_set \<Rightarrow> (error + unit) \<times> asdf_data_set" where
  "add_trace_write_collective_information info ds =
     (let station_name = info_station_name info;
          wg = (if station_name \<in> set (map fst (waveform_group ds)) then waveform_group ds
                else waveform_group ds @ [(station_name, [])]);
          grp = (case map_of wg station_name of None \<Rightarrow> [] | Some g \<Rightarrow> g);
          params = info_dataset_creation_params info
      in if p_name params \<in> set (map fst grp)
         then (Inl (RuntimeError ''Unable to create link (Name already exists)''),
               ds\<lparr>waveform_group := wg\<rparr>)
         else (Inr (),
               ds\<lparr>waveform_group := AList.update station_name
                     (grp @ [(p_name params,
                        \<lparr>ds_shape = p_shape params, ds_dtype = p_dtype params,
                         ds_compression = p_compression params,
                         ds_compression_opts = p_compression_opts params,
                         ds_fletcher32 = p_fletcher32 params,
                         ds_attrs = info_dataset_attrs info,
                         ds_data = replicate (p_shape params) 0\<rparr>)]) wg\<rparr>))"

text \<open>
  \<open>_add_trace_write_independent_information(self, info, trace)\<close>:
  \<open>self._waveform_group[info["data_name"]][:] = trace.data\<close>.
\<close>

definition add_trace_write_independent_information ::
  "collective_information \<Rightarrow> trace \<Rightarrow> asdf_data_set \<Rightarrow> (error + unit) \<times> asdf_data_set" where
  "add_trace_write_independent_information info tr ds =
     (let station_name = info_station_name info;
          name = p_name (info_dataset_creation_params info)
      in case map_of (waveform_group ds) station_name of
           None \<Rightarrow> (Inl KeyError, ds)
         | Some grp \<Rightarrow>
             (case map_of grp name of
                None \<Rightarrow> (Inl KeyError, ds)
              | Some d \<Rightarrow>
                  if length (tr_data tr) \<noteq> ds_shape d
                  then (Inl (TypeError ''Cannot broadcast''), ds)
                  else (Inr (),
                        ds\<lparr>waveform_group := AList.update station_name
                              (AList.update name (d\<lparr>ds_data := tr_data tr\<rparr>) grp)
                              (waveform_group ds)\<rparr>)))"

text \<open>
  The arguments \<open>event_id\<close>, \<open>origin_id\<close>, \<open>magnitude_id\<close> and \<open>focal_mechanism_id\<close> of
  \<open>add_waveforms\<close>: \<open>None\<close>, another false value, an ObsPy event object with its resource
  id, a \<open>ResourceIdentifier\<close>, or any other value, with what
  \<open>str(ResourceIdentifier(value))\<close> yields for it (\<open>None\<close> when that raises).
\<close>

datatype id_arg =
    NoId
  | FalsyId
  | EventObject string
  | ResourceIdentifier string
  | OtherId "string option"

fun normalise_id :: "string \<Rightarrow> id_arg \<Rightarrow> error + string option" where
  "normalise_id name NoId = Inr None"
| "normalise_id name FalsyId = Inr (Some [])"
| "normalise_id name (EventObject rid) = Inr (Some rid)"
| "normalise_id name (ResourceIdentifier rid) = Inr (Some rid)"
| "normalise_id name (OtherId (Some s)) = Inr (Some s)"
| "normalise_id name (OtherId None) = Inl (TypeError (''Invalid type for '' @ name @ ''.''))"

text \<open>
  The \<open>waveform\<close> argument: a trace, a stream, or something \<open>obspy.read\<close> is asked to
  read, with what the read yields.
\<close>

datatype waveform_arg =
    ATrace trace
  | AStream stream
  | Readable "error + stream"

text \<open>The loop over the traces at the end of \<open>add_waveforms\<close>.\<close>

fun add_traces ::
  "string \<Rightarrow> (string \<times> string option) list \<Rightarrow> trace list \<Rightarrow> asdf_data_set
     \<Rightarrow> (error + unit) \<times> asdf_data_set" where
  "add_traces tag ids [] ds = (Inr (), ds)"
| "add_traces tag ids (tr # trs) ds =
     (case add_trace_get_collective_information ds tr tag ids of
        (None, ds1) \<Rightarrow> add_traces tag ids trs ds1
      | (Some info, ds1) \<Rightarrow>
          (case add_trace_write_collective_information info ds1 of
             (Inl e, ds2) \<Rightarrow> (Inl e, ds2)
           | (Inr u, ds2) \<Rightarrow>
               (case add_trace_write_independent_information info tr ds2 of
                  (Inl e, ds3) \<Rightarrow> (Inl e, ds3)
                | (Inr u', ds3) \<Rightarrow> add_traces tag ids trs ds3)))"

text \<open>
  The four blocks that extract the ids, in the order of the source: the first id of an
  invalid type raises.
\<close>

fun normalise_ids :: "(string \<times> id_arg) list \<Rightarrow> error + (string \<times> string option) list" where
  "normalise_ids [] = Inr []"
| "normalise_ids ((name, a) # rest) =
     (case normalise_id name a of
        Inl e \<Rightarrow> Inl e
      | Inr v \<Rightarrow>
          (case normalise_ids rest of
             Inl e \<Rightarrow> Inl e
           | Inr vs \<Rightarrow> Inr ((name, v) # vs)))"

text \<open>The traces of the \<open>waveform\<close> argument; \<open>obspy.read\<close> may raise.\<close>

fun waveform_traces :: "waveform_arg \<Rightarrow> error + trace list" where
  "waveform_traces (ATrace tr) = Inr [tr]"
| "waveform_traces (AStream st) = Inr st"
| "waveform_traces (Readable r) = r"

text \<open>\<open>add_waveforms(self, waveform, tag, event_id, origin_id, magnitude_id, focal_mechanism_id)\<close>.\<close>

definition add_waveforms ::
  "asdf_data_set \<Rightarrow> waveform_arg \<Rightarrow> string \<Rightarrow> id_arg \<Rightarrow> id_arg \<Rightarrow> id_arg \<Rightarrow> id_arg
     \<Rightarrow> (error + unit) \<times> asdf_data_set" where
  "add_waveforms ds waveform tag event_id origin_id magnitude_id focal_mechanism_id =
     (case normalise_ids [(''event_id'', event_id), (''origin_id'', origin_id),
                          (''magnitude_id'', magnitude_id),
                          (''focal_mechanism_id'', focal_mechanism_id)] of
        Inl e \<Rightarrow> (Inl e, ds)
      | Inr ids \<Rightarrow>
          (let tag' = py_strip tag in
           if py_lower tag' = ''stationxml''
           then (Inl (ValueError (''Tag '' @ tag' @ '' is invalid.'')), ds)
           else (case waveform_traces waveform of
                   Inl e \<Rightarrow> (Inl e, ds)
                 | Inr traces \<Rightarrow> add_traces tag' ids traces ds)))"

section \<open>The entry point (asdf_data_set.py, \<open>process\<close>)\<close>

text \<open>\<open>get_station_list\<close>: \<open>sorted(self.__file["Waveforms"].keys())\<close>.\<close>

definition get_station_list :: "asdf_data_set \<Rightarrow> string list" where
  "get_station_list ds = sort (map fst (waveform_group ds))"

text \<open>
  The body of the loop over the stations (lines 1042 to 1060). Python iterates over the
  set \<open>tags\<close> in an order of its own; the model takes the order of first occurrence.
\<close>

definition station_tags_of_station ::
  "(string \<rightharpoonup> string) \<Rightarrow> (string \<times> h5_group) list \<Rightarrow> string \<Rightarrow> (string \<times> string) list" where
  "station_tags_of_station tag_map wg station =
     (case map_of wg station of
        None \<Rightarrow> []
      | Some grp \<Rightarrow>
          (let waveforms = map fst grp in
           if ''StationXML'' \<notin> set waveforms then []
           else (let tags = remdups (map tag_of_name
                                (filter (\<lambda>waveform. waveform \<noteq> ''StationXML'') waveforms))
                 in map (\<lambda>tag. (station, tag)) (filter (\<lambda>tag. tag_map tag \<noteq> None) tags))))"

definition process_station_tags ::
  "asdf_data_set \<Rightarrow> (string \<rightharpoonup> string) \<Rightarrow> (string \<times> string) list" where
  "process_station_tags ds tag_map =
     concat (map (station_tags_of_station tag_map (waveform_group ds)) (get_station_list ds))"

text \<open>
  \<open>process\<close> up to the point where the output file is created (lines 1033 to 1063):
  the error it raises, or the job list it goes on with. \<open>output_exists\<close> is
  \<open>os.path.exists(output_filename)\<close>.
\<close>

definition process_checks ::
  "bool \<Rightarrow> asdf_data_set \<Rightarrow> (string \<rightharpoonup> string) \<Rightarrow> error + (string \<times> string) list" where
  "process_checks output_exists ds tag_map =
     (if output_exists then Inl (ValueError ''Output file already exists.'')
      else (let station_tags = process_station_tags ds tag_map in
            if station_tags = [] then Inl (ValueError ''No data matching the tag map found.'')
            else Inr station_tags))"

section \<open>The local scheduler (asdf_data_set.py, \<open>_dispatch_processing_multiprocessing\<close>)\<close>

text \<open>
  A \<open>JoinableQueue(maxsize)\<close>. No process reads the queue while it is seeded, so a \<open>put\<close>
  on a full queue never returns: \<open>None\<close>. A \<open>maxsize\<close> of zero or less means no bound.
\<close>

record 'a bounded_queue =
  maxsize :: int
  queue_items :: "'a list"

definition queue_put :: "'a \<Rightarrow> 'a bounded_queue \<Rightarrow> 'a bounded_queue option" where
  "queue_put x q =
     (if 0 < maxsize q \<and> maxsize q \<le> int (length (queue_items q)) then None
      else Some (q\<lparr>queue_items := queue_items q @ [x]\<rparr>))"

fun queue_put_all :: "'a list \<Rightarrow> 'a bounded_queue \<Rightarrow> 'a bounded_queue option" where
  "queue_put_all [] q = Some q"
| "queue_put_all (x # xs) q =
     (case queue_put x q of None \<Rightarrow> None | Some q' \<Rightarrow> queue_put_all xs q')"

record local_scheduler =
  cpu_count :: nat
  input_queue :: "(string \<times> string) item bounded_queue"
  processes :: nat

text \<open>
  Lines 1347 to 1358 and 1409 to 1414: the worker count, the seeded queue and the number
  of \<open>Process\<close> objects created. \<open>hardware_threads\<close> is \<open>multiprocessing.cpu_count()\<close>. The
  factor \<open>1.1\<close> is taken as the number it denotes.
\<close>

definition dispatch_processing_multiprocessing ::
  "nat \<Rightarrow> (string \<times> string) list \<Rightarrow> local_scheduler option" where
  "dispatch_processing_multiprocessing hardware_threads station_tags =
     (let cpu_count = min hardware_threads (length station_tags);
          q0 = \<lparr>maxsize = \<lceil>1.1 * real (length station_tags + cpu_count)\<rceil>, queue_items = []\<rparr>
      in case queue_put_all (map Item station_tags) q0 of
           None \<Rightarrow> None
         | Some q1 \<Rightarrow>
             (case queue_put_all (replicate cpu_count POISON_PILL) q1 of
                None \<Rightarrow> None
              | Some q2 \<Rightarrow>
                  Some \<lparr>cpu_count = cpu_count, input_queue = q2,
                        processes = length [0..<cpu_count]\<rparr>))"

section \<open>The worker node (asdf_data_set.py, \<open>_dispatch_processing_mpi_worker_node\<close>)\<close>

text \<open>
  The user's processing function is called with a stream and the station's inventory. It
  may change the stream in place, and it returns a value (\<open>None\<close> or a stream) or raises:
  the model returns the outcome together with the stream as the call leaves it.
\<close>

type_synonym 'inv processing_function =
  "stream \<Rightarrow> 'inv \<Rightarrow> (string + stream option) \<times> stream"

record worker_node =
  stream_buffer :: "((string \<times> string) \<times> stream) list"
  w_poison_pill_received :: bool
  waiting_for_write :: bool
  waiting_for_item :: bool
  w_sent :: "(((string \<times> string), string) payload \<times> msg_tag) list"
  w_printed :: "string list"

definition worker_node_init :: worker_node where
  "worker_node_init =
     \<lparr>stream_buffer = [], w_poison_pill_received = False, waiting_for_write = False,
      waiting_for_item = False, w_sent = [], w_printed = []\<rparr>"

text \<open>
  The worker's handling of a \<open>MASTER_SENDS_ITEM\<close> message (lines 1252 to 1285).
  \<open>get_data_for_tag\<close> reads the stream and the inventory from the input file through its
  accessors and is a parameter, as is the test \<open>buffer_full\<close> of the buffer's size
  against \<open>MAX_MEMORY_PER_WORKER_IN_MB\<close>. What it reads is an ObsPy stream, so the type
  check of \<open>StreamBuffer.__setitem__\<close> passes; a dictionary assignment replaces the value
  of a key that is there.
\<close>

definition worker_handle_item ::
  "(string \<times> string \<Rightarrow> stream \<times> 'inv) \<Rightarrow> 'inv processing_function
     \<Rightarrow> (((string \<times> string) \<times> stream) list \<Rightarrow> bool)
     \<Rightarrow> (string \<times> string) item \<Rightarrow> worker_node \<Rightarrow> worker_node" where
  "worker_handle_item get_data_for_tag process_function buffer_full station_tag ws =
     (let ws1 = ws\<lparr>waiting_for_item := False\<rparr> in
      case station_tag of
        POISON_PILL \<Rightarrow>
          (let ws2 = (if stream_buffer ws1 \<noteq> []
                      then ws1\<lparr>w_sent := w_sent ws1 @ [(NoPayload, WORKER_REQUESTS_WRITE)],
                              waiting_for_write := True\<rparr>
                      else ws1)
           in ws2\<lparr>w_poison_pill_received := True,
                  w_sent := w_sent ws2 @ [(NoPayload, POISON_PILL_RECEIVED)]\<rparr>)
      | Item key \<Rightarrow>
          (case get_data_for_tag key of (stream, inventory) \<Rightarrow>
             (case process_function stream inventory of (outcome, stream') \<Rightarrow>
                (let ws2 = (case outcome of
                              Inl e \<Rightarrow> ws1\<lparr>w_printed := w_printed ws1 @
                                 [''Error during processing function. Will be skipped: '' @ e]\<rparr>
                            | Inr r \<Rightarrow> ws1);
                     ws3 = ws2\<lparr>stream_buffer := AList.update key stream' (stream_buffer ws2)\<rparr>
                 in if buffer_full (stream_buffer ws3)
                    then ws3\<lparr>w_sent := w_sent ws3 @ [(NoPayload, WORKER_REQUESTS_WRITE)],
                            waiting_for_write := True\<rparr>
                    else ws3))))"

text \<open>
  \<open>_sync_metadata\<close> on a worker, first part: the collective information of every trace of
  every buffered stream, under the renamed tag, is left on the trace and collected.
\<close>

text \<open>
  \<open>_sync_metadata\<close> passes the trace and the tag only: the four ids are \<open>None\<close>, and are
  then looked up in \<open>trace.stats.asdf\<close>.
\<close>

definition no_ids :: "(string \<times> string option) list" where
  "no_ids = [(''event_id'', None), (''origin_id'', None), (''magnitude_id'', None),
             (''focal_mechanism_id'', None)]"

fun describe_traces ::
  "string \<Rightarrow> trace list \<Rightarrow> asdf_data_set
     \<Rightarrow> (trace list \<times> collective_information option list) \<times> asdf_data_set" where
  "describe_traces tag [] out = (([], []), out)"
| "describe_traces tag (tr # trs) out =
     (case add_trace_get_collective_information out tr tag no_ids of (info, out1) \<Rightarrow>
        (case describe_traces tag trs out1 of ((trs', infos), out2) \<Rightarrow>
           ((tr\<lparr>tr_info := info\<rparr> # trs', info # infos), out2)))"

fun describe_buffer ::
  "(string \<rightharpoonup> string) \<Rightarrow> ((string \<times> string) \<times> stream) list \<Rightarrow> asdf_data_set
     \<Rightarrow> (error + ((string \<times> string) \<times> stream) list \<times> collective_information option list)
        \<times> asdf_data_set" where
  "describe_buffer tag_map [] out = (Inr ([], []), out)"
| "describe_buffer tag_map ((key, stream) # rest) out =
     (case tag_map (snd key) of
        None \<Rightarrow> (Inl KeyError, out)
      | Some tag \<Rightarrow>
          (case describe_traces tag stream out of ((stream', infos), out1) \<Rightarrow>
             (case describe_buffer tag_map rest out1 of
                (Inl e, out2) \<Rightarrow> (Inl e, out2)
              | (Inr (rest', infos'), out2) \<Rightarrow>
                  (Inr ((key, stream') # rest', infos @ infos'), out2))))"

text \<open>The loop that writes the collective part of every gathered information.\<close>

fun write_collective_all ::
  "collective_information list \<Rightarrow> asdf_data_set \<Rightarrow> (error + unit) \<times> asdf_data_set" where
  "write_collective_all [] out = (Inr (), out)"
| "write_collective_all (info # infos) out =
     (case add_trace_write_collective_information info out of
        (Inl e, out1) \<Rightarrow> (Inl e, out1)
      | (Inr u, out1) \<Rightarrow> write_collective_all infos out1)"

text \<open>
  \<open>_sync_metadata(self, output_dataset, tag_map)\<close> on a worker. \<open>allgather\<close> returns the
  lists of all ranks in rank order: those of the lower ranks (the master's is
  \<open>[None]\<close>), the worker's own and those of the higher ranks.
\<close>

definition sync_metadata ::
  "(string \<rightharpoonup> string) \<Rightarrow> collective_information option list list
     \<Rightarrow> collective_information option list list
     \<Rightarrow> ((string \<times> string) \<times> stream) list \<Rightarrow> asdf_data_set
     \<Rightarrow> (error + ((string \<times> string) \<times> stream) list) \<times> asdf_data_set" where
  "sync_metadata tag_map lower higher buffer out =
     (case describe_buffer tag_map buffer out of
        (Inl e, out1) \<Rightarrow> (Inl e, out1)
      | (Inr (buffer', sendobj), out1) \<Rightarrow>
          (let data = lower @ [sendobj] @ higher;
               trace_info = concat (map (\<lambda>x. case x of None \<Rightarrow> [] | Some info \<Rightarrow> [info])
                                     (concat data))
           in case write_collective_all trace_info out1 of
                (Inl e, out2) \<Rightarrow> (Inl e, out2)
              | (Inr u, out2) \<Rightarrow> (Inr buffer', out2)))"

text \<open>
  The independent writes after the synchronisation (lines 1228 to 1235); subscripting
  the \<open>None\<close> left on a trace whose data set existed raises \<open>TypeError\<close>.
\<close>

fun write_independent_traces ::
  "trace list \<Rightarrow> asdf_data_set \<Rightarrow> (error + unit) \<times> asdf_data_set" where
  "write_independent_traces [] out = (Inr (), out)"
| "write_independent_traces (tr # trs) out =
     (case tr_info tr of
        None \<Rightarrow> (Inl (TypeError ''NoneType object is not subscriptable''), out)
      | Some info \<Rightarrow>
          (case add_trace_write_independent_information info tr out of
             (Inl e, out1) \<Rightarrow> (Inl e, out1)
           | (Inr u, out1) \<Rightarrow> write_independent_traces trs out1))"

fun write_buffer ::
  "(stream \<Rightarrow> string) \<Rightarrow> ((string \<times> string) \<times> stream) list \<Rightarrow> worker_node \<Rightarrow> asdf_data_set
     \<Rightarrow> (error + unit) \<times> worker_node \<times> asdf_data_set" where
  "write_buffer str [] ws out = (Inr (), ws, out)"
| "write_buffer str ((key, value) # rest) ws out =
     (case write_independent_traces value out of
        (Inl e, out1) \<Rightarrow> (Inl e, ws, out1)
      | (Inr u, out1) \<Rightarrow>
          write_buffer str rest
            (ws\<lparr>w_sent := w_sent ws @ [(DonePayload key (Some (str value)), WORKER_DONE_WITH_ITEM)]\<rparr>)
            out1)"

text \<open>
  The worker's handling of \<open>MASTER_FORCES_WRITE\<close> (lines 1226 to 1237). \<open>str\<close> renders a
  stream for the report to the master.
\<close>

definition worker_forced_write ::
  "(string \<rightharpoonup> string) \<Rightarrow> (stream \<Rightarrow> string)
     \<Rightarrow> collective_information option list list \<Rightarrow> collective_information option list list
     \<Rightarrow> worker_node \<Rightarrow> asdf_data_set
     \<Rightarrow> (error + unit) \<times> worker_node \<times> asdf_data_set" where
  "worker_forced_write tag_map str lower higher ws out =
     (case sync_metadata tag_map lower higher (stream_buffer ws) out of
        (Inl e, out1) \<Rightarrow> (Inl e, ws, out1)
      | (Inr buffer', out1) \<Rightarrow>
          (case write_buffer str buffer' (ws\<lparr>stream_buffer := buffer'\<rparr>) out1 of
             (Inl e, ws1, out2) \<Rightarrow> (Inl e, ws1, out2)
           | (Inr u, ws1, out2) \<Rightarrow>
               (Inr (), ws1\<lparr>stream_buffer := [], waiting_for_write := False\<rparr>, out2)))"

text \<open>
  The body of the loop of \<open>Process.run\<close> in the local scheduler for one job (lines 1388
  to 1404). The processing function is called outside any \<open>try\<close>: its exception leaves
  \<open>run\<close>.
\<close>

definition process_run_item ::
  "(string \<times> string \<Rightarrow> stream \<times> 'inv) \<Rightarrow> 'inv processing_function \<Rightarrow> (string \<rightharpoonup> string)
     \<Rightarrow> string \<times> string \<Rightarrow> asdf_data_set \<Rightarrow> (error + unit) \<times> asdf_data_set" where
  "process_run_item get_data_for_tag processing_function tag_map stationtag out =
     (case get_data_for_tag stationtag of (stream, inventory) \<Rightarrow>
        (case processing_function stream inventory of
           (Inl e, stream') \<Rightarrow> (Inl (UserException e), out)
         | (Inr None, stream') \<Rightarrow> (Inr (), out)
         | (Inr (Some output_stream), stream') \<Rightarrow>
             if output_stream = [] then (Inr (), out)
             else (case tag_map (snd stationtag) of
                     None \<Rightarrow> (Inl KeyError, out)
                   | Some tag \<Rightarrow> add_waveforms out (AStream output_stream) tag NoId NoId NoId NoId)))"

section \<open>Definitions for the verification\<close>

text \<open>
  While jobs are handed out the queue is the rest of the original list: the next \<open>k\<close>-th
  job is at its head, and no call changes the arguments of a job object.
\<close>

definition fifo_inv :: "'a list \<Rightarrow> nat \<Rightarrow> ('a, 'r) job_queue_helper \<Rightarrow> bool" where
  "fifo_inv jobs k q =
     (k \<le> length jobs \<and> in_queue q = [k..<length jobs] \<and> map arguments (job_objs q) = jobs)"

text \<open>
  A ledger in which worker 1 holds three jobs, two of them with the same arguments.
\<close>

definition example_queue :: "(string \<times> string, string) job_queue_helper" where
  "example_queue =
     \<lparr>job_objs = [\<lparr>arguments = (''A'', ''raw''), result = None\<rparr>,
                  \<lparr>arguments = (''A'', ''raw''), result = None\<rparr>,
                  \<lparr>arguments = (''B'', ''raw''), result = None\<rparr>],
      all_jobs = [0, 1, 2], in_queue = [], finished_jobs = [], poison_pills_received = 0,
      workers = [1 \<mapsto> \<lparr>active_jobs = [0, 1, 2], completed_jobs_count = 0\<rparr>]\<rparr>"

text \<open>A trace, and an output file that holds its data set under the tag \<open>processed\<close>.\<close>

definition example_trace :: trace where
  "example_trace =
     \<lparr>tr_network = ''XX'', tr_station = ''A'', tr_location = '''', tr_channel = ''BHZ'',
      tr_starttime = ''2014-01-01T00:00:00'', tr_endtime = ''2014-01-01T00:00:01'',
      tr_starttime_ns = 1388534400000000000, tr_sampling_rate = 1, tr_npts = 2,
      tr_dtype = ''float32'', tr_data = [1, 2], tr_asdf_ids = [], tr_info = None\<rparr>"

definition example_dataset :: dataset where
  "example_dataset =
     \<lparr>ds_shape = 2, ds_dtype = ''float32'', ds_compression = None, ds_compression_opts = None,
      ds_fletcher32 = True, ds_attrs = [], ds_data = [5, 6]\<rparr>"

definition example_output :: asdf_data_set where
  "example_output =
     \<lparr>waveform_group =
        [(''XX.A'', [(''XX.A..BHZ__2014-01-01T00:00:00__2014-01-01T00:00:01__processed'',
                     example_dataset)])],
      mpi = False, compression = (None, None), warnings_issued = []\<rparr>"

text \<open>
  A processing function that raises, an input file with one trace for station \<open>XX.A\<close>, an
  empty output file opened in parallel mode, and the worker that was sent the job
  \<open>(XX.A, raw)\<close>.
\<close>

definition failing_function :: "unit processing_function" where
  "failing_function stream inventory = (Inl ''boom'', stream)"

definition example_input :: "string \<times> string \<Rightarrow> stream \<times> unit" where
  "example_input key = ([example_trace], ())"

definition empty_output :: asdf_data_set where
  "empty_output = \<lparr>waveform_group = [], mpi = True, compression = (None, None), warnings_issued = []\<rparr>"

definition failed_job_worker :: worker_node where
  "failed_job_worker =
     worker_handle_item example_input failing_function (\<lambda>buffer. False)
       (Item (''XX.A'', ''raw'')) (worker_node_init\<lparr>waiting_for_item := True\<rparr>)"

text \<open>
  The state of the master with three ranks after two acknowledgements and one write
  request, all from worker 1.
\<close>

definition twice_acknowledged :: "(string \<times> string, string) master_state" where
  "twice_acknowledged =
     snd (master_dispatch WORKER_REQUESTS_WRITE 1 NoPayload
            (receive_acknowledgements [1, 1] (master_init [(''A'', ''raw'')] 3)))"

text \<open>
  The collective information of the example trace under the tag \<open>processed\<close>, for a file
  opened in parallel mode.
\<close>

definition example_information :: collective_information where
  "example_information =
     \<lparr>info_station_name = ''XX.A'',
      info_data_name = ''XX.A/XX.A..BHZ__2014-01-01T00:00:00__2014-01-01T00:00:01__processed'',
      info_dataset_creation_params =
        \<lparr>p_name = ''XX.A..BHZ__2014-01-01T00:00:00__2014-01-01T00:00:01__processed'',
         p_shape = 2, p_dtype = ''float32'', p_compression = None,
         p_compression_opts = None, p_fletcher32 = False\<rparr>,
      info_dataset_attrs = [(''starttime'', IntAttr 1388534400000000000),
                            (''sampling_rate'', FloatAttr 1)]\<rparr>"

text \<open>A worker that holds the stream of the job \<open>(XX.A, raw)\<close> in its buffer.\<close>

definition buffering_worker :: worker_node where
  "buffering_worker = worker_node_init\<lparr>stream_buffer := [((''XX.A'', ''raw''), [example_trace])]\<rparr>"

section \<open>The ledger partitions the jobs\<close>

lemma map_of_new_worker:
  "map_of (map (\<lambda>w. (w, new_worker)) ws) w = Some wk \<Longrightarrow> active_jobs wk = []"
  by (induction ws) (auto simp: new_worker_def split: if_splits)

lemma ledger_inv_init: "ledger_inv (length jobs) (JobQueueHelper_init jobs ws)"
  by (auto simp: ledger_inv_def JobQueueHelper_init_def pending_def active_def finished_set_def
      dest!: map_of_new_worker)

lemma get_job_success:
  assumes "get_job_for_worker w q = (Inr a, q')"
  obtains j rest wk where "in_queue q = j # rest" "workers q w = Some wk"
    "a = arguments (job_objs q ! j)"
    "q' = q\<lparr>in_queue := rest, workers := (workers q)(w \<mapsto> wk\<lparr>active_jobs := active_jobs wk @ [j]\<rparr>)\<rparr>"
  using assms
  by (auto simp: get_job_for_worker_def Let_def split: list.splits option.splits)

lemma received_job_success:
  assumes "received_job_from_worker args res w q = (Inr u, q')"
  obtains j wk where "workers q w = Some wk" "matching_jobs q wk args = [j]"
    "q' = q\<lparr>job_objs := (job_objs q)[j := (job_objs q ! j)\<lparr>result := res\<rparr>],
            workers := (workers q)(w \<mapsto> wk\<lparr>active_jobs := remove1 j (active_jobs wk),
                        completed_jobs_count := completed_jobs_count wk + 1\<rparr>),
            finished_jobs := finished_jobs q @ [j]\<rparr>"
  using assms
  by (auto simp: received_job_from_worker_def split: list.splits option.splits)

lemma matching_single_mem: "matching_jobs q wk args = [j] \<Longrightarrow> j \<in> set (active_jobs wk)"
proof -
  assume "matching_jobs q wk args = [j]"
  then have "j \<in> set (filter (\<lambda>i. arguments (job_objs q ! i) = args) (active_jobs wk))"
    by (simp add: matching_jobs_def)
  then show ?thesis by simp
qed

lemma active_split:
  assumes "workers q w = Some wk"
  shows "active q = others q w \<union> set (active_jobs wk)"
proof (rule set_eqI)
  fix j
  show "j \<in> active q \<longleftrightarrow> j \<in> others q w \<union> set (active_jobs wk)"
    using assms unfolding active_def others_def by (simp, metis option.inject)
qed

lemma others_update:
  "workers q' = (workers q)(w \<mapsto> wk') \<Longrightarrow> others q' w = others q w"
  by (auto simp: others_def)

lemma ledger_inv_sets:
  assumes "ledger_inv n q"
  shows "pending q \<inter> active q = {}" "pending q \<inter> finished_set q = {}"
    "active q \<inter> finished_set q = {}" "pending q \<union> active q \<union> finished_set q = {0..<n}"
  using assms by (simp_all add: ledger_inv_def)

lemma ledger_inv_lists:
  assumes "ledger_inv n q"
  shows "all_jobs q = [0..<n]" "distinct (in_queue q)" "distinct (finished_jobs q)"
  using assms by (simp_all add: ledger_inv_def)

lemma ledger_inv_worker:
  assumes "ledger_inv n q" "workers q w = Some wk"
  shows "distinct (active_jobs wk)"
  using assms unfolding ledger_inv_def by blast

lemma ledger_inv_disjoint:
  assumes "ledger_inv n q" "w \<noteq> w'" "workers q w = Some wk" "workers q w' = Some wk'"
  shows "set (active_jobs wk) \<inter> set (active_jobs wk') = {}"
  using assms unfolding ledger_inv_def by blast

lemma active_mem: "workers q w = Some wk \<Longrightarrow> j \<in> set (active_jobs wk) \<Longrightarrow> j \<in> active q"
  by (auto simp: active_def)

lemma get_job_sets:
  assumes inv: "ledger_inv n q" and q: "in_queue q = j # rest" "workers q w = Some wk"
    "q' = q\<lparr>in_queue := rest, workers := (workers q)(w \<mapsto> wk\<lparr>active_jobs := active_jobs wk @ [j]\<rparr>)\<rparr>"
  shows "j \<in> pending q" "pending q' = pending q - {j}" "active q' = insert j (active q)"
    "finished_set q' = finished_set q"
proof -
  from ledger_inv_lists(2) [OF inv] q(1) have d: "j \<notin> set rest" by simp
  show "j \<in> pending q" using q(1) by (simp add: pending_def)
  show "pending q' = pending q - {j}" using q(1,3) d by (auto simp: pending_def)
  have w': "workers q' w = Some (wk\<lparr>active_jobs := active_jobs wk @ [j]\<rparr>)"
    and upd: "workers q' = (workers q)(w \<mapsto> wk\<lparr>active_jobs := active_jobs wk @ [j]\<rparr>)"
    using q(3) by simp_all
  show "active q' = insert j (active q)"
    by (simp add: active_split [OF w'] active_split [OF q(2)] others_update [OF upd])
  show "finished_set q' = finished_set q" using q(3) by (simp add: finished_set_def)
qed

lemma received_job_sets:
  assumes inv: "ledger_inv n q" and q: "workers q w = Some wk" "matching_jobs q wk args = [j]"
    "q' = q\<lparr>job_objs := (job_objs q)[j := (job_objs q ! j)\<lparr>result := res\<rparr>],
            workers := (workers q)(w \<mapsto> wk\<lparr>active_jobs := remove1 j (active_jobs wk),
                        completed_jobs_count := completed_jobs_count wk + 1\<rparr>),
            finished_jobs := finished_jobs q @ [j]\<rparr>"
  shows "j \<in> active q" "pending q' = pending q" "active q' = active q - {j}"
    "finished_set q' = insert j (finished_set q)"
proof -
  have jm: "j \<in> set (active_jobs wk)" using q(2) by (rule matching_single_mem)
  have dw: "distinct (active_jobs wk)" using inv q(1) by (rule ledger_inv_worker)
  have jo: "j \<notin> others q w"
  proof
    assume "j \<in> others q w"
    then obtain w' wk' where o: "w' \<noteq> w" "workers q w' = Some wk'" "j \<in> set (active_jobs wk')"
      by (auto simp: others_def)
    from ledger_inv_disjoint [OF inv o(1) o(2) q(1)] o(3) jm show False by blast
  qed
  show "j \<in> active q" using q(1) jm by (rule active_mem)
  show "pending q' = pending q" using q(3) by (simp add: pending_def)
  have w': "workers q' w = Some (wk\<lparr>active_jobs := remove1 j (active_jobs wk),
                        completed_jobs_count := completed_jobs_count wk + 1\<rparr>)"
    and upd: "workers q' = (workers q)(w \<mapsto> wk\<lparr>active_jobs := remove1 j (active_jobs wk),
                        completed_jobs_count := completed_jobs_count wk + 1\<rparr>)"
    using q(3) by simp_all
  show "active q' = active q - {j}"
    using dw jo
    by (auto simp: active_split [OF w'] active_split [OF q(1)] others_update [OF upd])
  show "finished_set q' = insert j (finished_set q)" using q(3) by (simp add: finished_set_def)
qed

lemma get_job_moves:
  assumes inv: "ledger_inv n q" and ok: "get_job_for_worker w q = (Inr a, q')"
  shows "\<exists>j. j \<in> pending q \<and> pending q' = pending q - {j} \<and> active q' = insert j (active q)
            \<and> finished_set q' = finished_set q"
proof -
  from ok obtain j rest wk where q: "in_queue q = j # rest" "workers q w = Some wk"
    "q' = q\<lparr>in_queue := rest, workers := (workers q)(w \<mapsto> wk\<lparr>active_jobs := active_jobs wk @ [j]\<rparr>)\<rparr>"
    by (rule get_job_success)
  from get_job_sets [OF inv q] show ?thesis by blast
qed

lemma received_job_moves:
  assumes inv: "ledger_inv n q" and ok: "received_job_from_worker args res w q = (Inr u, q')"
  shows "\<exists>j. j \<in> active q \<and> pending q' = pending q \<and> active q' = active q - {j}
            \<and> finished_set q' = insert j (finished_set q)"
proof -
  from ok obtain j wk where q: "workers q w = Some wk" "matching_jobs q wk args = [j]"
    "q' = q\<lparr>job_objs := (job_objs q)[j := (job_objs q ! j)\<lparr>result := res\<rparr>],
            workers := (workers q)(w \<mapsto> wk\<lparr>active_jobs := remove1 j (active_jobs wk),
                        completed_jobs_count := completed_jobs_count wk + 1\<rparr>),
            finished_jobs := finished_jobs q @ [j]\<rparr>"
    by (rule received_job_success)
  from received_job_sets [OF inv q] show ?thesis by blast
qed

lemma ledger_invI:
  assumes "all_jobs q = [0..<n]" "distinct (in_queue q)" "distinct (finished_jobs q)"
    and "\<And>w wk. workers q w = Some wk \<Longrightarrow> distinct (active_jobs wk)"
    and "\<And>w w' wk wk'. w \<noteq> w' \<Longrightarrow> workers q w = Some wk \<Longrightarrow> workers q w' = Some wk'
          \<Longrightarrow> set (active_jobs wk) \<inter> set (active_jobs wk') = {}"
    and "pending q \<inter> active q = {}" "pending q \<inter> finished_set q = {}"
      "active q \<inter> finished_set q = {}" "pending q \<union> active q \<union> finished_set q = {0..<n}"
  shows "ledger_inv n q"
  unfolding ledger_inv_def using assms by blast

lemma get_job_preserves:
  assumes inv: "ledger_inv n q" and ok: "get_job_for_worker w q = (Inr a, q')"
  shows "ledger_inv n q'"
proof -
  from ok obtain j rest wk where q: "in_queue q = j # rest" "workers q w = Some wk"
    "q' = q\<lparr>in_queue := rest, workers := (workers q)(w \<mapsto> wk\<lparr>active_jobs := active_jobs wk @ [j]\<rparr>)\<rparr>"
    by (rule get_job_success)
  note mv = get_job_sets [OF inv q]
  note st = ledger_inv_sets [OF inv]
  have jn: "j \<notin> active q" using st(1) mv(1) by blast
  have jo: "\<And>v y. workers q v = Some y \<Longrightarrow> j \<notin> set (active_jobs y)"
    using jn active_mem by blast
  show ?thesis
  proof (rule ledger_invI)
    show "all_jobs q' = [0..<n]" using ledger_inv_lists(1) [OF inv] q(3) by simp
    show "distinct (in_queue q')" using ledger_inv_lists(2) [OF inv] q(1,3) by simp
    show "distinct (finished_jobs q')" using ledger_inv_lists(3) [OF inv] q(3) by simp
  next
    fix w' wk' assume w': "workers q' w' = Some wk'"
    show "distinct (active_jobs wk')"
    proof (cases "w' = w")
      case True
      with w' q(3) have "wk' = wk\<lparr>active_jobs := active_jobs wk @ [j]\<rparr>" by simp
      with ledger_inv_worker [OF inv q(2)] jo [OF q(2)] show ?thesis by simp
    next
      case False
      with w' q(3) have "workers q w' = Some wk'" by simp
      then show ?thesis using inv ledger_inv_worker by blast
    qed
  next
    fix w1 w2 wk1 wk2
    assume ne: "w1 \<noteq> w2" "workers q' w1 = Some wk1" "workers q' w2 = Some wk2"
    consider "w1 = w" "w2 \<noteq> w" | "w2 = w" "w1 \<noteq> w" | "w1 \<noteq> w" "w2 \<noteq> w"
      using ne(1) by blast
    then show "set (active_jobs wk1) \<inter> set (active_jobs wk2) = {}"
    proof cases
      case 1
      with ne q(3) have e: "wk1 = wk\<lparr>active_jobs := active_jobs wk @ [j]\<rparr>" "workers q w2 = Some wk2"
        by simp_all
      from ledger_inv_disjoint [OF inv _ q(2) e(2)] 1 jo [OF e(2)] e(1) show ?thesis by auto
    next
      case 2
      with ne q(3) have e: "wk2 = wk\<lparr>active_jobs := active_jobs wk @ [j]\<rparr>" "workers q w1 = Some wk1"
        by simp_all
      from ledger_inv_disjoint [OF inv _ e(2) q(2)] 2 jo [OF e(2)] e(1) show ?thesis by auto
    next
      case 3
      with ne q(3) have "workers q w1 = Some wk1" "workers q w2 = Some wk2" by simp_all
      with ledger_inv_disjoint [OF inv ne(1)] show ?thesis by blast
    qed
  next
    show "pending q' \<inter> active q' = {}" using st mv by auto
    show "pending q' \<inter> finished_set q' = {}" using st mv by auto
    show "active q' \<inter> finished_set q' = {}" using st mv by auto
    show "pending q' \<union> active q' \<union> finished_set q' = {0..<n}" using st mv by auto
  qed
qed

lemma received_job_preserves:
  assumes inv: "ledger_inv n q" and ok: "received_job_from_worker args res w q = (Inr u, q')"
  shows "ledger_inv n q'"
proof -
  from ok obtain j wk where q: "workers q w = Some wk" "matching_jobs q wk args = [j]"
    "q' = q\<lparr>job_objs := (job_objs q)[j := (job_objs q ! j)\<lparr>result := res\<rparr>],
            workers := (workers q)(w \<mapsto> wk\<lparr>active_jobs := remove1 j (active_jobs wk),
                        completed_jobs_count := completed_jobs_count wk + 1\<rparr>),
            finished_jobs := finished_jobs q @ [j]\<rparr>"
    by (rule received_job_success)
  note mv = received_job_sets [OF inv q]
  note st = ledger_inv_sets [OF inv]
  have jf: "j \<notin> set (finished_jobs q)" using st(3) mv(1) by (auto simp: finished_set_def)
  have sub: "set (active_jobs wk') \<subseteq> set (active_jobs wk0) \<and>
             (distinct (active_jobs wk0) \<longrightarrow> distinct (active_jobs wk'))"
    if "workers q' w' = Some wk'" "workers q w' = Some wk0" for w' wk' wk0
  proof (cases "w' = w")
    case True
    with that q(1,3) have "wk0 = wk"
      "wk' = wk\<lparr>active_jobs := remove1 j (active_jobs wk),
                        completed_jobs_count := completed_jobs_count wk + 1\<rparr>" by simp_all
    then show ?thesis using set_remove1_subset [of j "active_jobs wk"] by simp
  next
    case False
    with that q(3) have "wk' = wk0" by simp
    then show ?thesis by simp
  qed
  have ex: "\<exists>wk0. workers q w' = Some wk0" if "workers q' w' = Some wk'" for w' wk'
    using that q(1,3) by (cases "w' = w") simp_all
  show ?thesis
  proof (rule ledger_invI)
    show "all_jobs q' = [0..<n]" using ledger_inv_lists(1) [OF inv] q(3) by simp
    show "distinct (in_queue q')" using ledger_inv_lists(2) [OF inv] q(3) by simp
    show "distinct (finished_jobs q')" using ledger_inv_lists(3) [OF inv] q(3) jf by simp
  next
    fix w' wk' assume w': "workers q' w' = Some wk'"
    from ex [OF w'] obtain wk0 where o: "workers q w' = Some wk0" by blast
    from sub [OF w' o] ledger_inv_worker [OF inv o] show "distinct (active_jobs wk')" by blast
  next
    fix w1 w2 wk1 wk2
    assume that: "w1 \<noteq> w2" "workers q' w1 = Some wk1" "workers q' w2 = Some wk2"
    from ex [OF that(2)] obtain x where x: "workers q w1 = Some x" by blast
    from ex [OF that(3)] obtain y where y: "workers q w2 = Some y" by blast
    from ledger_inv_disjoint [OF inv that(1) x y] sub [OF that(2) x] sub [OF that(3) y]
    show "set (active_jobs wk1) \<inter> set (active_jobs wk2) = {}" by blast
  next
    show "pending q' \<inter> active q' = {}" using st mv by auto
    show "pending q' \<inter> finished_set q' = {}" using st mv by auto
    show "active q' \<inter> finished_set q' = {}" using st mv by auto
    show "pending q' \<union> active q' \<union> finished_set q' = {0..<n}" using st mv by auto
  qed
qed

lemma apply_op_preserves:
  assumes "ledger_inv n q" and "apply_op opn q = (Inr out, q')"
  shows "ledger_inv n q'"
proof (cases opn)
  case (GetJob w)
  with assms(2) obtain a where "get_job_for_worker w q = (Inr a, q')"
    by (auto split: prod.splits sum.splits)
  with assms(1) show ?thesis by (rule get_job_preserves)
next
  case (ReceivedJob args res w)
  with assms(2) obtain u where "received_job_from_worker args res w q = (Inr u, q')"
    by (auto split: prod.splits sum.splits)
  with assms(1) show ?thesis by (rule received_job_preserves)
qed

lemma apply_op_moves:
  assumes "ledger_inv n q" and "apply_op opn q = (Inr out, q')"
  shows "moves_one_job q q'"
proof (cases opn)
  case (GetJob w)
  with assms(2) obtain a where "get_job_for_worker w q = (Inr a, q')"
    by (auto split: prod.splits sum.splits)
  from get_job_moves [OF assms(1) this] show ?thesis unfolding moves_one_job_def by blast
next
  case (ReceivedJob args res w)
  with assms(2) obtain u where "received_job_from_worker args res w q = (Inr u, q')"
    by (auto split: prod.splits sum.splits)
  from received_job_moves [OF assms(1) this] show ?thesis unfolding moves_one_job_def by blast
qed

lemma run_ops_preserves:
  "ledger_inv n q \<Longrightarrow> run_ops ops q = Some (outs, q') \<Longrightarrow> ledger_inv n q'"
proof (induction ops arbitrary: q outs)
  case Nil
  then show ?case by simp
next
  case (Cons opn ops)
  from Cons.prems(2) obtain out q1 outs1 where
    s: "apply_op opn q = (Inr out, q1)" "run_ops ops q1 = Some (outs1, q')"
    by (auto split: prod.splits sum.splits option.splits)
  from Cons.IH [OF apply_op_preserves [OF Cons.prems(1) s(1)] s(2)] show ?case .
qed


text \<open>
  Claim C5. Start from any job list and any worker names and run any sequence of
  \<open>get_job_for_worker\<close> and \<open>received_job_from_worker\<close> calls that all succeed. In the
  state reached, the pending, active and finished sets of job objects are pairwise
  disjoint, their union is the set of the initial jobs, no job is in the finished list
  twice, and every further call that succeeds moves exactly one job, from pending to
  active or from active to finished.
\<close>

theorem ledger_partition:
  assumes "run_ops ops (JobQueueHelper_init jobs worker_names) = Some (outs, q)"
  shows "pending q \<inter> active q = {} \<and> pending q \<inter> finished_set q = {} \<and>
         active q \<inter> finished_set q = {} \<and>
         pending q \<union> active q \<union> finished_set q = set (all_jobs q) \<and>
         all_jobs q = [0..<length jobs] \<and>
         distinct (finished_jobs q) \<and>
         (\<forall>opn out q'. apply_op opn q = (Inr out, q') \<longrightarrow> moves_one_job q q')"
proof -
  have inv: "ledger_inv (length jobs) q"
    using ledger_inv_init assms by (rule run_ops_preserves)
  have "set (all_jobs q) = {0..<length jobs}"
    using ledger_inv_lists(1) [OF inv] by simp
  then show ?thesis
    using ledger_inv_sets [OF inv] ledger_inv_lists(1,3) [OF inv] apply_op_moves [OF inv]
    by blast
qed

lemma upt_2: "[0..<2] = [0, Suc 0]"
  by (simp add: upt_rec)

theorem ledger_partition_witness:
  "\<exists>outs q out q'.
     run_ops [GetJob 1, ReceivedJob (''A'', ''raw'') (Some ''done'') 1]
        (JobQueueHelper_init [(''A'', ''raw''), (''B'', ''raw'')] [1, 2]) = Some (outs, q) \<and>
     pending q \<inter> active q = {} \<and> pending q \<inter> finished_set q = {} \<and>
     active q \<inter> finished_set q = {} \<and>
     pending q \<union> active q \<union> finished_set q = set (all_jobs q) \<and>
     all_jobs q = [0, 1] \<and>
     distinct (finished_jobs q) \<and>
     apply_op (GetJob 2) q = (Inr out, q') \<and> moves_one_job q q'"
proof -
  let ?q0 = "JobQueueHelper_init [(''A'', ''raw''), (''B'', ''raw'')] [1, 2]
               :: (string \<times> string, string) job_queue_helper"
  obtain outs q where r: "run_ops [GetJob 1, ReceivedJob (''A'', ''raw'') (Some ''done'') 1] ?q0 = Some (outs, q)"
    and iq: "in_queue q = [1]" and w2: "workers q 2 = Some new_worker"
    by (simp add: JobQueueHelper_init_def get_job_for_worker_def received_job_from_worker_def
        matching_jobs_def upt_2 new_worker_def)
  obtain out q' where s: "apply_op (GetJob 2) q = (Inr out, q')"
    using iq w2 by (simp add: get_job_for_worker_def)
  note p = ledger_partition [OF r]
  from p s have m: "moves_one_job q q'" by blast
  from p have u: "pending q \<union> active q \<union> finished_set q = set (all_jobs q)"
    and l: "all_jobs q = [0, 1]" by (simp_all add: upt_2)
  from p have d: "pending q \<inter> active q = {}" "pending q \<inter> finished_set q = {}"
    "active q \<inter> finished_set q = {}" "distinct (finished_jobs q)" by simp_all
  from r d u l s m show ?thesis by blast
qed

section \<open>Handing out jobs\<close>

lemma fifo_inv_init: "fifo_inv jobs 0 (JobQueueHelper_init jobs ws)"
  by (simp add: fifo_inv_def JobQueueHelper_init_def comp_def)

lemma map_arguments_update:
  "map arguments (xs[j := (xs ! j)\<lparr>result := res\<rparr>]) = map arguments xs"
proof (cases "j < length xs")
  case True
  have "map arguments (xs[j := (xs ! j)\<lparr>result := res\<rparr>]) = (map arguments xs)[j := arguments (xs ! j)]"
    by (simp add: map_update)
  also have "\<dots> = (map arguments xs)[j := map arguments xs ! j]" using True by simp
  also have "\<dots> = map arguments xs" by (rule list_update_id)
  finally show ?thesis .
next
  case False
  then have "length xs \<le> j" by simp
  then show ?thesis by (simp add: list_update_beyond)
qed

lemma fifo_get:
  assumes "fifo_inv jobs k q" "get_job_for_worker w q = (Inr a, q')"
  shows "k < length jobs \<and> a = jobs ! k \<and> fifo_inv jobs (Suc k) q'"
proof -
  from assms(2) obtain j rest wk where q: "in_queue q = j # rest" "workers q w = Some wk"
    "a = arguments (job_objs q ! j)"
    "q' = q\<lparr>in_queue := rest, workers := (workers q)(w \<mapsto> wk\<lparr>active_jobs := active_jobs wk @ [j]\<rparr>)\<rparr>"
    by (rule get_job_success)
  from assms(1) q(1) have e: "[k..<length jobs] = j # rest" by (simp add: fifo_inv_def)
  then have k: "k < length jobs" and j: "j = k" and r: "rest = [Suc k..<length jobs]"
    by (auto simp: upt_eq_Cons_conv)
  from assms(1) have m: "map arguments (job_objs q) = jobs" by (simp add: fifo_inv_def)
  from m k have "arguments (job_objs q ! k) = jobs ! k"
    by (metis length_map nth_map)
  with q(3) j have "a = jobs ! k" by simp
  moreover have "fifo_inv jobs (Suc k) q'" using k r m q(4) by (simp add: fifo_inv_def)
  ultimately show ?thesis using k by simp
qed

lemma fifo_received:
  assumes "fifo_inv jobs k q" "received_job_from_worker args res w q = (Inr u, q')"
  shows "fifo_inv jobs k q'"
proof -
  from assms(2) obtain j wk where q: "workers q w = Some wk" "matching_jobs q wk args = [j]"
    "q' = q\<lparr>job_objs := (job_objs q)[j := (job_objs q ! j)\<lparr>result := res\<rparr>],
            workers := (workers q)(w \<mapsto> wk\<lparr>active_jobs := remove1 j (active_jobs wk),
                        completed_jobs_count := completed_jobs_count wk + 1\<rparr>),
            finished_jobs := finished_jobs q @ [j]\<rparr>"
    by (rule received_job_success)
  from assms(1) show ?thesis unfolding fifo_inv_def q(3) by (simp add: map_arguments_update)
qed

lemma fifo_run:
  "fifo_inv jobs k q \<Longrightarrow> run_ops ops q = Some (outs, q') \<Longrightarrow>
     outs = take (length (filter is_get ops)) (drop k jobs) \<and>
     k + length (filter is_get ops) \<le> length jobs \<and>
     fifo_inv jobs (k + length (filter is_get ops)) q'"
proof (induction ops arbitrary: q k outs)
  case Nil
  then show ?case by (simp add: fifo_inv_def)
next
  case (Cons opn ops)
  from Cons.prems(2) obtain out q1 outs1 where
    s: "apply_op opn q = (Inr out, q1)" "run_ops ops q1 = Some (outs1, q')"
       "outs = (case out of None \<Rightarrow> [] | Some a \<Rightarrow> [a]) @ outs1"
    by (auto split: prod.splits sum.splits option.splits)
  let ?n = "length (filter is_get ops)"
  show ?case
  proof (cases opn)
    case (GetJob w)
    with s(1) obtain a where g: "get_job_for_worker w q = (Inr a, q1)" "out = Some a"
      by (auto split: prod.splits sum.splits)
    note fg = fifo_get [OF Cons.prems(1) g(1)]
    have k: "k < length jobs" "a = jobs ! k" "fifo_inv jobs (Suc k) q1"
      using fg by blast+
    note ih0 = Cons.IH [OF k(3) s(2)]
    have ih: "outs1 = take ?n (drop (Suc k) jobs)" "Suc k + ?n \<le> length jobs"
      "fifo_inv jobs (Suc k + ?n) q'"
      using ih0 by blast+
    have o: "outs = a # outs1" using s(3) g(2) by simp
    have n: "length (filter is_get (opn # ops)) = Suc ?n" using GetJob by simp
    have d: "drop k jobs = jobs ! k # drop (Suc k) jobs" using k(1) by (simp add: Cons_nth_drop_Suc)
    have 1: "outs = take (Suc ?n) (drop k jobs)"
      unfolding d o using ih(1) k(2) by simp
    have 2: "k + Suc ?n \<le> length jobs" using ih(2) by simp
    have 3: "fifo_inv jobs (k + Suc ?n) q'" using ih(3) by simp
    from 1 2 3 show ?thesis unfolding n by blast
  next
    case (ReceivedJob args res w)
    with s(1) obtain u where g: "received_job_from_worker args res w q = (Inr u, q1)" "out = None"
      by (auto split: prod.splits sum.splits)
    from fifo_received [OF Cons.prems(1) g(1)] have k: "fifo_inv jobs k q1" .
    note ih0 = Cons.IH [OF k s(2)]
    have o: "outs = outs1" using s(3) g(2) by simp
    have n: "length (filter is_get (opn # ops)) = ?n" using ReceivedJob by simp
    from ih0 show ?thesis unfolding n o .
  qed
qed

text \<open>
  For a name that is not among the workers the lookup raises after the pop: the head job
  has left the queue and is on no worker's list.
\<close>

lemma get_job_for_worker_unknown_worker:
  "in_queue q = j # rest \<Longrightarrow> workers q w = None \<Longrightarrow>
     get_job_for_worker w q = (Inl KeyError, q\<lparr>in_queue := rest\<rparr>)"
  by (simp add: get_job_for_worker_def)

text \<open>
  Claim C6. \<open>get_job_for_worker\<close> raises \<open>IndexError\<close> when the pending queue is empty.
  When the queue is not empty and the requesting worker is one of the queue's workers, it
  removes exactly the head job, appends it to that worker's active jobs and returns the
  job's arguments; nothing else changes. From the initial state, the arguments handed
  out by any sequence of successful calls are the first jobs of the original list, in
  the list's order.
\<close>

theorem get_job_for_worker_fifo:
  fixes q :: "('a, 'r) job_queue_helper"
  shows
  "(in_queue q = [] \<longrightarrow> get_job_for_worker w q = (Inl IndexError, q)) \<and>
   (\<forall>j rest wk. in_queue q = j # rest \<and> workers q w = Some wk \<longrightarrow>
      get_job_for_worker w q =
        (Inr (arguments (job_objs q ! j)),
         q\<lparr>in_queue := rest,
           workers := (workers q)(w \<mapsto> wk\<lparr>active_jobs := active_jobs wk @ [j]\<rparr>)\<rparr>)) \<and>
   (\<forall>(ops :: ('a, 'r) queue_op list) jobs ws outs q'.
      run_ops ops (JobQueueHelper_init jobs ws) = Some (outs, q') \<longrightarrow>
        outs = take (length (filter is_get ops)) jobs \<and>
        in_queue q' = [length (filter is_get ops)..<length jobs])"
proof (intro conjI allI impI)
  assume "in_queue q = []"
  then show "get_job_for_worker w q = (Inl IndexError, q)"
    by (simp add: get_job_for_worker_def)
next
  fix j rest wk
  assume "in_queue q = j # rest \<and> workers q w = Some wk"
  then show "get_job_for_worker w q =
        (Inr (arguments (job_objs q ! j)),
         q\<lparr>in_queue := rest,
           workers := (workers q)(w \<mapsto> wk\<lparr>active_jobs := active_jobs wk @ [j]\<rparr>)\<rparr>)"
    by (simp add: get_job_for_worker_def)
next
  fix ops :: "('a, 'r) queue_op list" and jobs ws outs and q' :: "('a, 'r) job_queue_helper"
  assume r: "run_ops ops (JobQueueHelper_init jobs ws) = Some (outs, q')"
  note fr = fifo_run [OF fifo_inv_init r]
  from fr show "outs = take (length (filter is_get ops)) jobs" by simp
  from fr show "in_queue q' = [length (filter is_get ops)..<length jobs]"
    by (simp add: fifo_inv_def)
qed


theorem get_job_for_worker_fifo_witness:
  "get_job_for_worker 1 (JobQueueHelper_init [] [1] :: (string \<times> string, string) job_queue_helper)
     = (Inl IndexError, JobQueueHelper_init [] [1]) \<and>
   fst (get_job_for_worker 1
          (JobQueueHelper_init [(''A'', ''raw''), (''B'', ''raw'')] [1, 2]
             :: (string \<times> string, string) job_queue_helper)) = Inr (''A'', ''raw'') \<and>
   (\<exists>q'. run_ops [GetJob 2, GetJob 1]
            (JobQueueHelper_init [(''A'', ''raw''), (''B'', ''raw'')] [1, 2]
               :: (string \<times> string, string) job_queue_helper)
          = Some ([(''A'', ''raw''), (''B'', ''raw'')], q') \<and> in_queue q' = [])"
proof -
  let ?e = "JobQueueHelper_init [] [1] :: (string \<times> string, string) job_queue_helper"
  let ?q = "JobQueueHelper_init [(''A'', ''raw''), (''B'', ''raw'')] [1, 2]
              :: (string \<times> string, string) job_queue_helper"
  have e: "in_queue ?e = []" by (simp add: JobQueueHelper_init_def)
  have 1: "get_job_for_worker 1 ?e = (Inl IndexError, ?e)"
    using get_job_for_worker_fifo [of ?e 1] e by blast
  have h: "in_queue ?q = 0 # [1] \<and> workers ?q 1 = Some new_worker"
    by (simp add: JobQueueHelper_init_def upt_2)
  have "get_job_for_worker 1 ?q =
        (Inr (arguments (job_objs ?q ! 0)),
         ?q\<lparr>in_queue := [1],
            workers := (workers ?q)(1 \<mapsto> new_worker\<lparr>active_jobs := active_jobs new_worker @ [0]\<rparr>)\<rparr>)"
    using get_job_for_worker_fifo [of ?q 1] h by blast
  then have 2: "fst (get_job_for_worker 1 ?q) = Inr (''A'', ''raw'')"
    by (simp add: JobQueueHelper_init_def)
  obtain outs q' where r: "run_ops [GetJob 2, GetJob 1] ?q = Some (outs, q')"
    by (simp add: JobQueueHelper_init_def get_job_for_worker_def upt_2 new_worker_def)
  have "outs = take (length (filter is_get [GetJob 2, GetJob 1 :: (string \<times> string, string) queue_op]))
                 [(''A'', ''raw''), (''B'', ''raw'')] \<and>
        in_queue q' = [length (filter is_get [GetJob 2, GetJob 1 :: (string \<times> string, string) queue_op])
                        ..<length [(''A'', ''raw''), (''B'', ''raw'')]]"
    using get_job_for_worker_fifo [of ?q 1] r by blast
  then have "outs = [(''A'', ''raw''), (''B'', ''raw'')]" "in_queue q' = []" by simp_all
  with r have 3: "\<exists>q'. run_ops [GetJob 2, GetJob 1] ?q = Some ([(''A'', ''raw''), (''B'', ''raw'')], q')
                      \<and> in_queue q' = []" by blast
  from 1 2 3 show ?thesis by blast
qed

section \<open>Completing jobs\<close>

lemma filter_single:
  "filter P xs = [j] \<Longrightarrow> P j \<and> j \<in> set xs \<and> j \<notin> set (remove1 j xs)"
proof (induction xs)
  case Nil
  then show ?case by simp
next
  case (Cons x xs)
  show ?case
  proof (cases "P x")
    case True
    with Cons.prems have "x = j" "filter P xs = []" by simp_all
    then have "\<forall>y \<in> set xs. \<not> P y" by (simp add: filter_empty_conv)
    with True \<open>x = j\<close> show ?thesis by auto
  next
    case False
    with Cons.prems have f: "filter P xs = [j]" by simp
    from Cons.IH [OF f] False show ?thesis by auto
  qed
qed

text \<open>
  Claim C7. \<open>received_job_from_worker(args, result, worker)\<close>: when exactly one job of the
  worker's active list has arguments equal to \<open>args\<close>, that job is removed from the active
  list and appended to the finished list, its result slot is set to \<open>result\<close>, and the
  worker's completed count grows by one. When no job matches, or more than one, the call
  raises \<open>ValueError\<close> and the state is the one before the call (also for an unknown
  worker name, which raises \<open>KeyError\<close>).
\<close>

theorem received_job_from_worker_unique:
  fixes q :: "('a, 'r) job_queue_helper" and args :: 'a and res :: "'r option" and w :: worker_name
  defines "q' \<equiv> snd (received_job_from_worker args res w q)"
  shows
  "(workers q w = None \<longrightarrow> received_job_from_worker args res w q = (Inl KeyError, q)) \<and>
   (\<forall>wk. workers q w = Some wk \<longrightarrow>
      (length (matching_jobs q wk args) = 0 \<longrightarrow>
         received_job_from_worker args res w q = (Inl (ValueError ''MASTER: Job not found''), q)) \<and>
      (1 < length (matching_jobs q wk args) \<longrightarrow>
         received_job_from_worker args res w q = (Inl (ValueError ''WTF''), q)) \<and>
      (length (matching_jobs q wk args) = 1 \<longrightarrow>
         (\<exists>j. matching_jobs q wk args = [j] \<and> j \<in> set (active_jobs wk) \<and>
              arguments (job_objs q ! j) = args \<and>
              fst (received_job_from_worker args res w q) = Inr () \<and>
              finished_jobs q' = finished_jobs q @ [j] \<and>
              job_objs q' = (job_objs q)[j := (job_objs q ! j)\<lparr>result := res\<rparr>] \<and>
              workers q' = (workers q)(w \<mapsto>
                 wk\<lparr>active_jobs := remove1 j (active_jobs wk),
                    completed_jobs_count := completed_jobs_count wk + 1\<rparr>) \<and>
              j \<notin> set (remove1 j (active_jobs wk)) \<and>
              in_queue q' = in_queue q \<and> all_jobs q' = all_jobs q \<and>
              poison_pills_received q' = poison_pills_received q)))"
proof (intro conjI allI impI)
  assume "workers q w = None"
  then show "received_job_from_worker args res w q = (Inl KeyError, q)"
    by (simp add: received_job_from_worker_def)
next
  fix wk assume "workers q w = Some wk" "length (matching_jobs q wk args) = 0"
  then show "received_job_from_worker args res w q = (Inl (ValueError ''MASTER: Job not found''), q)"
    by (simp add: received_job_from_worker_def)
next
  fix wk assume a: "workers q w = Some wk" "1 < length (matching_jobs q wk args)"
  from a(2) obtain x y zs where "matching_jobs q wk args = x # y # zs"
    by (cases "matching_jobs q wk args" rule: remdups_adj.cases) auto
  with a(1) show "received_job_from_worker args res w q = (Inl (ValueError ''WTF''), q)"
    by (simp add: received_job_from_worker_def)
next
  fix wk assume a: "workers q w = Some wk" "length (matching_jobs q wk args) = 1"
  from a(2) obtain j where m: "matching_jobs q wk args = [j]"
    by (cases "matching_jobs q wk args" rule: remdups_adj.cases) auto
  then have "filter (\<lambda>i. arguments (job_objs q ! i) = args) (active_jobs wk) = [j]"
    by (simp add: matching_jobs_def)
  from filter_single [OF this]
  have f: "arguments (job_objs q ! j) = args" "j \<in> set (active_jobs wk)"
    "j \<notin> set (remove1 j (active_jobs wk))" by simp_all
  have r: "received_job_from_worker args res w q =
      (Inr (), q\<lparr>job_objs := (job_objs q)[j := (job_objs q ! j)\<lparr>result := res\<rparr>],
                  workers := (workers q)(w \<mapsto>
                      wk\<lparr>active_jobs := remove1 j (active_jobs wk),
                        completed_jobs_count := completed_jobs_count wk + 1\<rparr>),
                  finished_jobs := finished_jobs q @ [j]\<rparr>)"
    using a(1) m by (simp add: received_job_from_worker_def)
  show "\<exists>j. matching_jobs q wk args = [j] \<and> j \<in> set (active_jobs wk) \<and>
              arguments (job_objs q ! j) = args \<and>
              fst (received_job_from_worker args res w q) = Inr () \<and>
              finished_jobs q' = finished_jobs q @ [j] \<and>
              job_objs q' = (job_objs q)[j := (job_objs q ! j)\<lparr>result := res\<rparr>] \<and>
              workers q' = (workers q)(w \<mapsto>
                 wk\<lparr>active_jobs := remove1 j (active_jobs wk),
                    completed_jobs_count := completed_jobs_count wk + 1\<rparr>) \<and>
              j \<notin> set (remove1 j (active_jobs wk)) \<and>
              in_queue q' = in_queue q \<and> all_jobs q' = all_jobs q \<and>
              poison_pills_received q' = poison_pills_received q"
    unfolding q'_def r using m f by (intro exI [of _ j]) simp
qed


theorem received_job_from_worker_unique_witness:
  "received_job_from_worker (''A'', ''raw'') (Some ''done'') 7 example_queue
     = (Inl KeyError, example_queue) \<and>
   received_job_from_worker (''C'', ''raw'') (Some ''done'') 1 example_queue
     = (Inl (ValueError ''MASTER: Job not found''), example_queue) \<and>
   received_job_from_worker (''A'', ''raw'') (Some ''done'') 1 example_queue
     = (Inl (ValueError ''WTF''), example_queue) \<and>
   fst (received_job_from_worker (''B'', ''raw'') (Some ''done'') 1 example_queue) = Inr () \<and>
   finished_jobs (snd (received_job_from_worker (''B'', ''raw'') (Some ''done'') 1 example_queue)) = [2] \<and>
   workers (snd (received_job_from_worker (''B'', ''raw'') (Some ''done'') 1 example_queue)) 1
     = Some \<lparr>active_jobs = [0, 1], completed_jobs_count = 1\<rparr> \<and>
   result (job_objs (snd (received_job_from_worker (''B'', ''raw'') (Some ''done'') 1 example_queue)) ! 2)
     = Some ''done''"
proof -
  let ?wk = "\<lparr>active_jobs = [0, 1, 2], completed_jobs_count = 0\<rparr>"
  have n: "workers example_queue 7 = None" and w: "workers example_queue 1 = Some ?wk"
    by (simp_all add: example_queue_def)
  have mC: "length (matching_jobs example_queue ?wk (''C'', ''raw'')) = 0"
    and mA: "1 < length (matching_jobs example_queue ?wk (''A'', ''raw''))"
    and mB: "length (matching_jobs example_queue ?wk (''B'', ''raw'')) = 1"
    and mB': "matching_jobs example_queue ?wk (''B'', ''raw'') = [2]"
    by (simp_all add: example_queue_def matching_jobs_def)
  have 1: "received_job_from_worker (''A'', ''raw'') (Some ''done'') 7 example_queue
             = (Inl KeyError, example_queue)"
    using received_job_from_worker_unique [of example_queue 7 "(''A'', ''raw'')" "Some ''done''"] n
    by blast
  have 2: "received_job_from_worker (''C'', ''raw'') (Some ''done'') 1 example_queue
     = (Inl (ValueError ''MASTER: Job not found''), example_queue)"
    using received_job_from_worker_unique [of example_queue 1 "(''C'', ''raw'')" "Some ''done''"] w mC
    by blast
  have 3: "received_job_from_worker (''A'', ''raw'') (Some ''done'') 1 example_queue
     = (Inl (ValueError ''WTF''), example_queue)"
    using received_job_from_worker_unique [of example_queue 1 "(''A'', ''raw'')" "Some ''done''"] w mA
    by blast
  let ?r = "received_job_from_worker (''B'', ''raw'') (Some ''done'') 1 example_queue"
  from received_job_from_worker_unique [of example_queue 1 "(''B'', ''raw'')" "Some ''done''"] w mB
  obtain j where j: "matching_jobs example_queue ?wk (''B'', ''raw'') = [j]"
    "fst ?r = Inr ()" "finished_jobs (snd ?r) = finished_jobs example_queue @ [j]"
    "job_objs (snd ?r) = (job_objs example_queue)[j := (job_objs example_queue ! j)\<lparr>result := Some ''done''\<rparr>]"
    "workers (snd ?r) = (workers example_queue)(1 \<mapsto>
                 ?wk\<lparr>active_jobs := remove1 j (active_jobs ?wk),
                    completed_jobs_count := completed_jobs_count ?wk + 1\<rparr>)"
    by blast
  from j(1) mB' have j2: "j = 2" by simp
  have 4: "finished_jobs (snd ?r) = [2]" using j(3) j2 by (simp add: example_queue_def)
  have 5: "workers (snd ?r) 1 = Some \<lparr>active_jobs = [0, 1], completed_jobs_count = 1\<rparr>"
    unfolding j(5) j2 by simp
  have 6: "result (job_objs (snd ?r) ! 2) = Some ''done''"
    unfolding j(4) j2 by (simp add: example_queue_def)
  from 1 2 3 j(2) 4 5 6 show ?thesis by blast
qed

section \<open>Acknowledgements and the collective phase\<close>

lemma receive_acknowledgements_jobs:
  "poison_pills_received (m_jobs (receive_acknowledgements srcs st))
     = poison_pills_received (m_jobs st) + length srcs \<and>
   workers (m_jobs (receive_acknowledgements srcs st)) = workers (m_jobs st)"
  by (induction srcs arbitrary: st) (simp_all add: master_dispatch_def poison_pill_received_def)

lemma dom_init_workers: "dom (workers (JobQueueHelper_init jobs ws)) = set ws"
  by (force simp: JobQueueHelper_init_def dom_map_of_conv_image_fst)

lemma acknowledged_iff_count:
  "all_poison_pills_received (m_jobs (receive_acknowledgements srcs (master_init jobs n)))
     \<longleftrightarrow> length srcs = card (set (worker_nodes n))"
proof -
  let ?st = "master_init jobs n :: ('a, 'b) master_state"
  have "poison_pills_received (m_jobs ?st) = 0"
    by (simp add: master_init_def JobQueueHelper_init_def)
  moreover have "dom (workers (m_jobs ?st)) = set (worker_nodes n)"
    by (simp add: master_init_def dom_init_workers)
  ultimately show ?thesis
    by (auto simp: all_poison_pills_received_def receive_acknowledgements_jobs)
qed

text \<open>
  Claim C3, as amended. After the master has handled the acknowledgements of a run,
  \<open>all_poison_pills_received\<close> holds exactly when the number of acknowledgements equals
  the number of workers. When every acknowledgement comes from a worker and no worker
  acknowledges twice, this is exactly when every worker has acknowledged.
\<close>

theorem all_poison_pills_received_counts:
  "(all_poison_pills_received (m_jobs (receive_acknowledgements srcs (master_init jobs n)))
      \<longleftrightarrow> length srcs = card (set (worker_nodes n))) \<and>
   (distinct srcs \<and> set srcs \<subseteq> set (worker_nodes n) \<longrightarrow>
      (all_poison_pills_received (m_jobs (receive_acknowledgements srcs (master_init jobs n)))
         \<longleftrightarrow> set (worker_nodes n) \<subseteq> set srcs))"
proof (intro conjI impI)
  show c: "all_poison_pills_received (m_jobs (receive_acknowledgements srcs (master_init jobs n)))
      \<longleftrightarrow> length srcs = card (set (worker_nodes n))"
    by (rule acknowledged_iff_count)
  assume a: "distinct srcs \<and> set srcs \<subseteq> set (worker_nodes n)"
  then have l: "length srcs = card (set srcs)" by (simp add: distinct_card)
  have "card (set srcs) = card (set (worker_nodes n)) \<longleftrightarrow> set (worker_nodes n) \<subseteq> set srcs"
  proof
    assume "card (set srcs) = card (set (worker_nodes n))"
    with a have "set srcs = set (worker_nodes n)" by (simp add: card_subset_eq)
    then show "set (worker_nodes n) \<subseteq> set srcs" by simp
  next
    assume "set (worker_nodes n) \<subseteq> set srcs"
    with a have "set srcs = set (worker_nodes n)" by blast
    then show "card (set srcs) = card (set (worker_nodes n))" by simp
  qed
  with c l show "all_poison_pills_received (m_jobs (receive_acknowledgements srcs (master_init jobs n)))
         \<longleftrightarrow> set (worker_nodes n) \<subseteq> set srcs" by simp
qed

lemma worker_nodes_3: "worker_nodes 3 = [1, 2]"
  by (simp add: worker_nodes_def upto.simps)

theorem all_poison_pills_received_counts_witness:
  "distinct [2, 1 :: int] \<and> set [2, 1] \<subseteq> set (worker_nodes 3) \<and>
   all_poison_pills_received (m_jobs (receive_acknowledgements [2, 1]
      (master_init [(''A'', ''raw'')] 3 :: (string \<times> string, string) master_state))) \<and>
   set (worker_nodes 3) \<subseteq> set [2, 1]"
proof -
  have h: "distinct [2, 1 :: int] \<and> set [2, 1] \<subseteq> set (worker_nodes 3)"
    and s: "set (worker_nodes 3) \<subseteq> set [2, 1]"
    by (simp_all add: worker_nodes_3)
  from all_poison_pills_received_counts [of "[2, 1]" "[(''A'', ''raw'')]" 3] h s
  show ?thesis by blast
qed

text \<open>
  Claim C3, as stated, fails: with workers 1 and 2, two acknowledgements from worker 1 make
  the predicate true although worker 2 has not acknowledged.
\<close>

theorem all_poison_pills_received_counterexample:
  "all_poison_pills_received (m_jobs (receive_acknowledgements [1, 1]
      (master_init [(''A'', ''raw'')] 3 :: (string \<times> string, string) master_state))) \<and>
   \<not> set (worker_nodes 3) \<subseteq> set [1, 1]"
proof -
  have "all_poison_pills_received (m_jobs (receive_acknowledgements [1, 1]
      (master_init [(''A'', ''raw'')] 3 :: (string \<times> string, string) master_state)))"
    unfolding acknowledged_iff_count by (simp add: worker_nodes_3)
  moreover have "\<not> set (worker_nodes 3) \<subseteq> set [1, 1]"
    by (simp add: worker_nodes_3)
  ultimately show ?thesis by blast
qed

lemma threshold_ceiling: "write_threshold_reached w n \<longleftrightarrow> \<lceil>real_of_int n / 2\<rceil> \<le> w"
  by (simp add: write_threshold_reached_def ceiling_le_iff)

lemma get_job_dom:
  "get_job_for_worker w q = (Inr a, q') \<Longrightarrow>
     dom (workers q') = dom (workers q) \<and> poison_pills_received q' = poison_pills_received q"
  by (erule get_job_success) auto

lemma received_job_dom:
  "received_job_from_worker args res w q = (Inr u, q') \<Longrightarrow>
     dom (workers q') = dom (workers q) \<and> poison_pills_received q' = poison_pills_received q"
  by (erule received_job_success) auto

lemma master_dispatch_counts:
  assumes "master_dispatch tag source msg st = (Inr u, st')"
  shows "dom (workers (m_jobs st')) = dom (workers (m_jobs st)) \<and>
         poison_pills_received (m_jobs st') =
           poison_pills_received (m_jobs st) + (if tag = POISON_PILL_RECEIVED then 1 else 0)"
proof (cases tag)
  case WORKER_REQUESTS_ITEM
  show ?thesis
  proof (cases "queue_empty (m_jobs st)")
    case True
    with assms WORKER_REQUESTS_ITEM show ?thesis by (auto simp: master_dispatch_def)
  next
    case False
    with assms WORKER_REQUESTS_ITEM obtain a q' where
      g: "get_job_for_worker source (m_jobs st) = (Inr a, q')" "m_jobs st' = q'"
      by (auto simp: master_dispatch_def split: prod.splits sum.splits)
    from get_job_dom [OF g(1)] g(2) WORKER_REQUESTS_ITEM show ?thesis by simp
  qed
next
  case WORKER_DONE_WITH_ITEM
  with assms obtain a r q' where
    g: "received_job_from_worker a r source (m_jobs st) = (Inr u, q')" "m_jobs st' = q'"
    by (auto simp: master_dispatch_def split: prod.splits payload.splits)
  from received_job_dom [OF g(1)] g(2) WORKER_DONE_WITH_ITEM show ?thesis by simp
next
  case WORKER_REQUESTS_WRITE
  with assms show ?thesis by (auto simp: master_dispatch_def)
next
  case POISON_PILL_RECEIVED
  with assms show ?thesis by (auto simp: master_dispatch_def poison_pill_received_def)
qed (use assms in \<open>simp_all add: master_dispatch_def\<close>)

lemma master_tick_counts:
  assumes "master_tick n (tag, source, msg) st = (Inr act, st')"
  shows "dom (workers (m_jobs st')) = dom (workers (m_jobs st)) \<and>
         poison_pills_received (m_jobs st') =
           poison_pills_received (m_jobs st)
             + (if act = Dispatched \<and> tag = POISON_PILL_RECEIVED then 1 else 0)"
proof (cases "master_starts_sync n st")
  case True
  with assms show ?thesis by (auto simp: master_tick_def)
next
  case False
  with assms obtain u where d: "master_dispatch tag source msg st = (Inr u, st')" "act = Dispatched"
    by (auto simp: master_tick_def split: prod.splits sum.splits)
  from master_dispatch_counts [OF d(1)] d(2) show ?thesis by simp
qed

lemma master_run_counts:
  "master_run n ticks st = Some (acks, st') \<Longrightarrow>
     dom (workers (m_jobs st')) = dom (workers (m_jobs st)) \<and>
     poison_pills_received (m_jobs st') = poison_pills_received (m_jobs st) + length acks"
proof (induction ticks arbitrary: st acks)
  case Nil
  then show ?case by simp
next
  case (Cons incoming rest)
  obtain tag source msg where i: "incoming = (tag, source, msg)" by (cases incoming)
  from Cons.prems obtain act st1 where t: "master_tick n (tag, source, msg) st = (Inr act, st1)"
    unfolding i by (auto split: prod.splits sum.splits)
  note c = master_tick_counts [OF t]
  show ?case
  proof (cases act)
    case CollectivePhase
    with Cons.prems t i have "master_run n rest st1 = Some (acks, st')" by simp
    from Cons.IH [OF this] c CollectivePhase show ?thesis by simp
  next
    case Dispatched
    with Cons.prems t i obtain acks1 where
      r: "master_run n rest st1 = Some (acks1, st')"
         "acks = (if tag = POISON_PILL_RECEIVED then [source] else []) @ acks1"
      by (auto split: option.splits)
    from Cons.IH [OF r(1)] c Dispatched r(2) show ?thesis by simp
  qed
qed

lemma master_run_acknowledged:
  assumes "master_run n ticks (master_init jobs n) = Some (acks, st)"
  shows "all_poison_pills_received (m_jobs st) \<longleftrightarrow> length acks = card (set (worker_nodes n))"
proof -
  let ?st = "master_init jobs n :: ('a, 'b) master_state"
  have "poison_pills_received (m_jobs ?st) = 0"
    by (simp add: master_init_def JobQueueHelper_init_def)
  moreover have "dom (workers (m_jobs ?st)) = set (worker_nodes n)"
    by (simp add: master_init_def dom_init_workers)
  ultimately show ?thesis
    using master_run_counts [OF assms] by (auto simp: all_poison_pills_received_def)
qed

lemma all_acknowledged_distinct:
  assumes "distinct acks" "set acks \<subseteq> set ws"
  shows "length acks = card (set ws) \<longleftrightarrow> set ws \<subseteq> set acks"
proof
  assume "length acks = card (set ws)"
  with assms have "card (set acks) = card (set ws)" by (simp add: distinct_card)
  with assms(2) have "set acks = set ws" by (simp add: card_subset_eq)
  then show "set ws \<subseteq> set acks" by simp
next
  assume "set ws \<subseteq> set acks"
  with assms(2) have "set acks = set ws" by blast
  with assms(1) show "length acks = card (set ws)" by (metis distinct_card)
qed

lemma master_tick_collective:
  "fst (master_tick n incoming st) = Inr CollectivePhase \<longleftrightarrow>
      \<lceil>real_of_int n / 2\<rceil> \<le> int (length (workers_requesting_write st)) \<or>
      (1 \<le> length (workers_requesting_write st) \<and> all_poison_pills_received (m_jobs st))"
proof -
  have t: "fst (master_tick n incoming st) = Inr CollectivePhase \<longleftrightarrow> master_starts_sync n st"
    by (auto simp: master_tick_def split: prod.splits sum.splits)
  have s: "master_starts_sync n st \<longleftrightarrow>
      \<lceil>real_of_int n / 2\<rceil> \<le> int (length (workers_requesting_write st)) \<or>
      (1 \<le> length (workers_requesting_write st) \<and> all_poison_pills_received (m_jobs st))"
    unfolding master_starts_sync_def threshold_ceiling
    by (cases "workers_requesting_write st") simp_all
  from t s show ?thesis by simp
qed

text \<open>
  Claim C4, as amended. With \<open>n\<close> ranks and \<open>w\<close> workers in \<open>workers_requesting_write\<close>, a
  tick of the master enters the collective phase exactly when \<open>w\<close> is at least the
  ceiling of \<open>n / 2\<close>, or \<open>w\<close> is at least one and \<open>all_poison_pills_received\<close> holds: in a
  run, when the number of acknowledgements handled equals the number of workers. When
  every acknowledgement comes from a worker and no worker acknowledges twice, that is
  when every worker has acknowledged. The source's test \<open>w >= 0.5 * n\<close> is the ceiling
  threshold for every integer \<open>w\<close>.
\<close>

theorem master_enters_collective_phase:
  fixes st :: "('a, 'r) master_state"
  shows
  "(fst (master_tick n incoming st) = Inr CollectivePhase \<longleftrightarrow>
      \<lceil>real_of_int n / 2\<rceil> \<le> int (length (workers_requesting_write st)) \<or>
      (1 \<le> length (workers_requesting_write st) \<and> all_poison_pills_received (m_jobs st))) \<and>
   (\<forall>w. (0.5 * real_of_int n \<le> real_of_int w) = (\<lceil>real_of_int n / 2\<rceil> \<le> w)) \<and>
   (\<forall>w. write_threshold_reached w n = (\<lceil>real_of_int n / 2\<rceil> \<le> w)) \<and>
   (\<forall>ticks jobs acks. master_run n ticks (master_init jobs n) = Some (acks, st) \<longrightarrow>
      (fst (master_tick n incoming st) = Inr CollectivePhase \<longleftrightarrow>
         \<lceil>real_of_int n / 2\<rceil> \<le> int (length (workers_requesting_write st)) \<or>
         (1 \<le> length (workers_requesting_write st) \<and>
          length acks = card (set (worker_nodes n)))) \<and>
      (distinct acks \<and> set acks \<subseteq> set (worker_nodes n) \<longrightarrow>
         (fst (master_tick n incoming st) = Inr CollectivePhase \<longleftrightarrow>
            \<lceil>real_of_int n / 2\<rceil> \<le> int (length (workers_requesting_write st)) \<or>
            (1 \<le> length (workers_requesting_write st) \<and>
             set (worker_nodes n) \<subseteq> set acks))))"
proof (intro conjI allI impI)
  show "fst (master_tick n incoming st) = Inr CollectivePhase \<longleftrightarrow>
      \<lceil>real_of_int n / 2\<rceil> \<le> int (length (workers_requesting_write st)) \<or>
      (1 \<le> length (workers_requesting_write st) \<and> all_poison_pills_received (m_jobs st))"
    by (rule master_tick_collective)
  show "(0.5 * real_of_int n \<le> real_of_int w) = (\<lceil>real_of_int n / 2\<rceil> \<le> w)" for w
    by (simp add: ceiling_le_iff)
  show "write_threshold_reached w n = (\<lceil>real_of_int n / 2\<rceil> \<le> w)" for w
    by (rule threshold_ceiling)
next
  fix ticks :: "(msg_tag \<times> worker_name \<times> ('a, 'r) payload) list" and jobs acks
  assume r: "master_run n ticks (master_init jobs n) = Some (acks, st)"
  note a = master_run_acknowledged [OF r]
  show c: "fst (master_tick n incoming st) = Inr CollectivePhase \<longleftrightarrow>
         \<lceil>real_of_int n / 2\<rceil> \<le> int (length (workers_requesting_write st)) \<or>
         (1 \<le> length (workers_requesting_write st) \<and>
          length acks = card (set (worker_nodes n)))"
    unfolding master_tick_collective a ..
  assume "distinct acks \<and> set acks \<subseteq> set (worker_nodes n)"
  then have "length acks = card (set (worker_nodes n)) \<longleftrightarrow> set (worker_nodes n) \<subseteq> set acks"
    by (simp add: all_acknowledged_distinct)
  with c show "fst (master_tick n incoming st) = Inr CollectivePhase \<longleftrightarrow>
            \<lceil>real_of_int n / 2\<rceil> \<le> int (length (workers_requesting_write st)) \<or>
            (1 \<le> length (workers_requesting_write st) \<and>
             set (worker_nodes n) \<subseteq> set acks)" by simp
qed


lemma master_init_3:
  "workers_requesting_write (master_init jobs 3) = []"
  "poison_pills_received (m_jobs (master_init jobs 3)) = 0"
  "card (dom (workers (m_jobs (master_init jobs 3)))) = 2"
  by (simp_all add: master_init_def JobQueueHelper_init_def worker_nodes_3
      dom_map_of_conv_image_fst)

lemma not_sync_without_writers:
  "workers_requesting_write st = [] \<Longrightarrow> \<not> master_starts_sync 3 st"
  by (simp add: master_starts_sync_def write_threshold_reached_def)

lemma tick_acknowledgement:
  "workers_requesting_write st = [] \<Longrightarrow>
     master_tick 3 (POISON_PILL_RECEIVED, w, NoPayload) st
       = (Inr Dispatched, st\<lparr>m_jobs := poison_pill_received (m_jobs st)\<rparr>)"
  by (simp add: master_tick_def not_sync_without_writers master_dispatch_def)

lemma tick_write_request:
  "workers_requesting_write st = [] \<Longrightarrow>
     master_tick 3 (WORKER_REQUESTS_WRITE, w, NoPayload) st
       = (Inr Dispatched, st\<lparr>workers_requesting_write := [w]\<rparr>)"
  by (simp add: master_tick_def not_sync_without_writers master_dispatch_def)

lemma twice_acknowledged_eq:
  "twice_acknowledged =
     (master_init [(''A'', ''raw'')] 3)
       \<lparr>m_jobs := poison_pill_received (poison_pill_received (m_jobs (master_init [(''A'', ''raw'')] 3))),
        workers_requesting_write := [1]\<rparr>"
  by (simp add: twice_acknowledged_def master_dispatch_def master_init_3)

theorem master_enters_collective_phase_witness:
  "\<exists>st :: (string \<times> string, string) master_state.
     master_run 3 [(POISON_PILL_RECEIVED, 2, NoPayload), (POISON_PILL_RECEIVED, 1, NoPayload),
                   (WORKER_REQUESTS_WRITE, 2, NoPayload)]
        (master_init [(''A'', ''raw'')] 3) = Some ([2, 1], st) \<and>
     distinct [2, 1 :: int] \<and> set [2, 1] \<subseteq> set (worker_nodes 3) \<and>
     set (worker_nodes 3) \<subseteq> set [2, 1] \<and>
     workers_requesting_write st = [2] \<and>
     fst (master_tick 3 (WORKER_REQUESTS_ITEM, 1, NoPayload) st) = Inr CollectivePhase"
proof -
  let ?init = "master_init [(''A'', ''raw'')] 3 :: (string \<times> string, string) master_state"
  let ?st = "?init\<lparr>m_jobs := poison_pill_received (poison_pill_received (m_jobs ?init)),
                  workers_requesting_write := [2]\<rparr>"
  have r: "master_run 3 [(POISON_PILL_RECEIVED, 2, NoPayload), (POISON_PILL_RECEIVED, 1, NoPayload),
                   (WORKER_REQUESTS_WRITE, 2, NoPayload)] ?init = Some ([2, 1], ?st)"
    by (simp add: tick_acknowledgement tick_write_request master_init_3)
  have h: "distinct [2, 1 :: int] \<and> set [2, 1] \<subseteq> set (worker_nodes 3)"
    and s: "set (worker_nodes 3) \<subseteq> set [2, 1]"
    by (simp_all add: worker_nodes_3)
  have w: "workers_requesting_write ?st = [2]" by simp
  from master_enters_collective_phase [of 3 "(WORKER_REQUESTS_ITEM, 1, NoPayload)" ?st] r h
  have "fst (master_tick 3 (WORKER_REQUESTS_ITEM, 1, NoPayload) ?st) = Inr CollectivePhase \<longleftrightarrow>
            \<lceil>real_of_int 3 / 2\<rceil> \<le> int (length (workers_requesting_write ?st)) \<or>
            (1 \<le> length (workers_requesting_write ?st) \<and>
             set (worker_nodes 3) \<subseteq> set [2, 1])"
    by blast
  with s w have "fst (master_tick 3 (WORKER_REQUESTS_ITEM, 1, NoPayload) ?st) = Inr CollectivePhase"
    by simp
  with r h s w show ?thesis by blast
qed

text \<open>
  Claim C4, as stated, fails: with three ranks, after two acknowledgements and a write
  request from worker 1 the tick enters the collective phase, with one writer waiting
  (less than the ceiling of \<open>3 / 2\<close>) and no acknowledgement from worker 2.
\<close>

theorem master_enters_collective_phase_counterexample:
  "master_run 3 [(POISON_PILL_RECEIVED, 1, NoPayload), (POISON_PILL_RECEIVED, 1, NoPayload),
                 (WORKER_REQUESTS_WRITE, 1, NoPayload)]
      (master_init [(''A'', ''raw'')] 3) = Some ([1, 1], twice_acknowledged) \<and>
   fst (master_tick 3 (WORKER_REQUESTS_ITEM, 2, NoPayload) twice_acknowledged)
     = Inr CollectivePhase \<and>
   \<not> \<lceil>real_of_int 3 / 2\<rceil> \<le> int (length (workers_requesting_write twice_acknowledged)) \<and>
   \<not> set (worker_nodes 3) \<subseteq> set [1, 1]"
proof -
  have r: "master_run 3 [(POISON_PILL_RECEIVED, 1, NoPayload), (POISON_PILL_RECEIVED, 1, NoPayload),
                 (WORKER_REQUESTS_WRITE, 1, NoPayload)]
      (master_init [(''A'', ''raw'')] 3) = Some ([1, 1], twice_acknowledged)"
    by (simp add: tick_acknowledgement tick_write_request master_init_3 twice_acknowledged_eq)
  have w: "workers_requesting_write twice_acknowledged = [1]"
    by (simp add: twice_acknowledged_eq)
  have a: "all_poison_pills_received (m_jobs twice_acknowledged)"
    by (simp add: twice_acknowledged_eq all_poison_pills_received_def poison_pill_received_def
        master_init_3)
  have t: "fst (master_tick 3 (WORKER_REQUESTS_ITEM, 2, NoPayload) twice_acknowledged)
             = Inr CollectivePhase"
    unfolding master_tick_collective using w a by simp
  have c: "\<not> \<lceil>real_of_int 3 / 2\<rceil> \<le> int (length (workers_requesting_write twice_acknowledged))"
    unfolding w by (simp add: ceiling_le_iff)
  have n: "\<not> set (worker_nodes 3) \<subseteq> set [1, 1]" by (simp add: worker_nodes_3)
  from r t c n show ?thesis by blast
qed

lemma example_names:
  "station_name_of example_trace = ''XX.A''"
  "data_name_of example_trace ''processed''
     = ''XX.A..BHZ__2014-01-01T00:00:00__2014-01-01T00:00:01__processed''"
  by (simp_all add: station_name_of_def data_name_of_def example_trace_def)

lemma example_present:
  "h5_contains (waveform_group example_output) (station_name_of example_trace)
     (data_name_of example_trace ''processed'')"
  unfolding example_names by (simp add: h5_contains_def example_output_def)

lemma strip_lower_processed:
  "py_strip ''processed'' = ''processed''" "py_lower ''processed'' \<noteq> ''stationxml''"
  by (simp_all add: py_strip_def py_isspace_def py_lower_def py_lower_char_def upper_case_def lower_case_def)

lemma get_info_present:
  assumes "h5_contains (waveform_group ds) (station_name_of tr) (data_name_of tr tag)"
  shows "add_trace_get_collective_information ds tr tag ids =
           (None, ds\<lparr>warnings_issued := warnings_issued ds @
              [''Data '' @ station_name_of tr @ ''/'' @ data_name_of tr tag
                 @ '' already exists in file. Will not be added!'']\<rparr>)"
  using assms by (simp add: add_trace_get_collective_information_def)

lemma write_collective_present:
  assumes "h5_contains (waveform_group ds) (info_station_name info)
             (p_name (info_dataset_creation_params info))"
  shows "add_trace_write_collective_information info ds =
           (Inl (RuntimeError ''Unable to create link (Name already exists)''), ds)"
proof -
  from assms obtain g where g: "map_of (waveform_group ds) (info_station_name info) = Some g"
    "p_name (info_dataset_creation_params info) \<in> set (map fst g)"
    by (auto simp: h5_contains_def split: option.splits)
  from g(1) have "info_station_name info \<in> set (map fst (waveform_group ds))"
    by (metis map_of_eq_None_iff option.distinct(1) set_map)
  with g show ?thesis by (simp add: add_trace_write_collective_information_def)
qed

section \<open>Data sets that exist already\<close>

lemma h5_contains_append_group:
  "h5_contains wg s n \<Longrightarrow> h5_contains (wg @ [(k, [])]) s n"
  by (auto simp: h5_contains_def map_add_def split: option.splits)

lemma h5_contains_update:
  assumes "h5_contains wg s n"
    "set (map fst (case map_of wg k of None \<Rightarrow> [] | Some g \<Rightarrow> g)) \<subseteq> set (map fst g')"
  shows "h5_contains (AList.update k g' wg) s n"
proof (cases "s = k")
  case True
  with assms(1) obtain g where g: "map_of wg k = Some g" "n \<in> set (map fst g)"
    by (auto simp: h5_contains_def split: option.splits)
  with assms(2) have "n \<in> set (map fst g')" by auto
  with True show ?thesis by (simp add: h5_contains_def update_conv')
next
  case False
  with assms(1) show ?thesis by (simp add: h5_contains_def update_conv')
qed

lemma keys_append: "set (map fst g) \<subseteq> set (map fst (g @ [x]))"
  by auto

lemma write_collective_keeps:
  assumes "add_trace_write_collective_information info ds = (r, ds')"
    and "h5_contains (waveform_group ds) s n"
  shows "h5_contains (waveform_group ds') s n"
proof -
  let ?k = "info_station_name info"
  let ?wg = "if ?k \<in> set (map fst (waveform_group ds)) then waveform_group ds
             else waveform_group ds @ [(?k, [])]"
  let ?g = "case map_of ?wg ?k of None \<Rightarrow> [] | Some g \<Rightarrow> g"
  have w: "h5_contains ?wg s n"
    using assms(2) by (simp add: h5_contains_append_group)
  show ?thesis
  proof (cases "p_name (info_dataset_creation_params info) \<in> set (map fst ?g)")
    case True
    with assms(1) have "ds' = ds\<lparr>waveform_group := ?wg\<rparr>"
      by (simp add: add_trace_write_collective_information_def Let_def)
    then have "waveform_group ds' = ?wg" by simp
    with w show ?thesis by simp
  next
    case False
    let ?d = "\<lparr>ds_shape = p_shape (info_dataset_creation_params info),
               ds_dtype = p_dtype (info_dataset_creation_params info),
               ds_compression = p_compression (info_dataset_creation_params info),
               ds_compression_opts = p_compression_opts (info_dataset_creation_params info),
               ds_fletcher32 = p_fletcher32 (info_dataset_creation_params info),
               ds_attrs = info_dataset_attrs info,
               ds_data = replicate (p_shape (info_dataset_creation_params info)) 0\<rparr>"
    from False assms(1) have "ds' = ds\<lparr>waveform_group :=
        AList.update ?k (?g @ [(p_name (info_dataset_creation_params info), ?d)]) ?wg\<rparr>"
      by (simp add: add_trace_write_collective_information_def Let_def)
    then have e: "waveform_group ds' =
        AList.update ?k (?g @ [(p_name (info_dataset_creation_params info), ?d)]) ?wg" by simp
    have "h5_contains (AList.update ?k (?g @ [(p_name (info_dataset_creation_params info), ?d)]) ?wg) s n"
      by (rule h5_contains_update [OF w keys_append])
    with e show ?thesis by simp
  qed
qed

lemma write_collective_all_raises:
  fixes info :: collective_information
  assumes "h5_contains (waveform_group ds) (info_station_name info)
             (p_name (info_dataset_creation_params info))"
    and "info \<in> set infos"
  shows "\<exists>e ds'. write_collective_all infos ds = (Inl e, ds')"
  using assms
proof (induction infos arbitrary: ds)
  case Nil
  then show ?case by simp
next
  case (Cons i infos)
  obtain r ds1 where w: "add_trace_write_collective_information i ds = (r, ds1)"
    by (cases "add_trace_write_collective_information i ds")
  show ?case
  proof (cases r)
    case (Inl e)
    with w show ?thesis by simp
  next
    case (Inr u)
    have "i \<noteq> info"
    proof
      assume "i = info"
      with write_collective_present [OF Cons.prems(1)] w Inr show False by simp
    qed
    with Cons.prems(2) have m: "info \<in> set infos" by simp
    from write_collective_keeps [OF w Cons.prems(1)]
    have "h5_contains (waveform_group ds1) (info_station_name info)
             (p_name (info_dataset_creation_params info))" .
    from Cons.IH [OF this m] w Inr show ?thesis by simp
  qed
qed

text \<open>
  Claim C2. For every trace whose target data set is already in the output file, the
  collective write for its path raises and leaves the file as it is, alone and in any
  list of gathered informations the collective loop is given; and the duplicate is not
  dropped silently: the describing step issues a warning for it.
\<close>

theorem collective_write_of_present_path_raises:
  "h5_contains (waveform_group ds) (station_name_of tr) (data_name_of tr tag) \<longrightarrow>
     (\<forall>info :: collective_information.
        info_station_name info = station_name_of tr \<and>
        p_name (info_dataset_creation_params info) = data_name_of tr tag \<longrightarrow>
          add_trace_write_collective_information info ds
            = (Inl (RuntimeError ''Unable to create link (Name already exists)''), ds) \<and>
          (\<forall>infos. info \<in> set infos \<longrightarrow>
             (\<exists>e ds'. write_collective_all infos ds = (Inl e, ds')))) \<and>
     (\<exists>warning. add_trace_get_collective_information ds tr tag ids
         = (None, ds\<lparr>warnings_issued := warnings_issued ds @ [warning]\<rparr>))"
proof (intro impI conjI allI)
  assume p: "h5_contains (waveform_group ds) (station_name_of tr) (data_name_of tr tag)"
  show "\<exists>warning. add_trace_get_collective_information ds tr tag ids
         = (None, ds\<lparr>warnings_issued := warnings_issued ds @ [warning]\<rparr>)"
    unfolding get_info_present [OF p] by blast
  fix info :: collective_information
  assume i: "info_station_name info = station_name_of tr \<and>
        p_name (info_dataset_creation_params info) = data_name_of tr tag"
  with p have q: "h5_contains (waveform_group ds) (info_station_name info)
             (p_name (info_dataset_creation_params info))" by simp
  from q show "add_trace_write_collective_information info ds
            = (Inl (RuntimeError ''Unable to create link (Name already exists)''), ds)"
    by (rule write_collective_present)
  fix infos assume "info \<in> set infos"
  with q show "\<exists>e ds'. write_collective_all infos ds = (Inl e, ds')"
    by (rule write_collective_all_raises)
qed

theorem collective_write_of_present_path_raises_witness:
  "h5_contains (waveform_group example_output) (station_name_of example_trace)
     (data_name_of example_trace ''processed'') \<and>
   info_station_name example_information = station_name_of example_trace \<and>
   p_name (info_dataset_creation_params example_information)
     = data_name_of example_trace ''processed'' \<and>
   add_trace_write_collective_information example_information example_output
     = (Inl (RuntimeError ''Unable to create link (Name already exists)''), example_output) \<and>
   (\<exists>e ds'. write_collective_all [example_information] example_output = (Inl e, ds')) \<and>
   (\<exists>warning. add_trace_get_collective_information example_output example_trace ''processed'' no_ids
       = (None, example_output\<lparr>warnings_issued := warnings_issued example_output @ [warning]\<rparr>))"
proof -
  have i: "info_station_name example_information = station_name_of example_trace \<and>
           p_name (info_dataset_creation_params example_information)
             = data_name_of example_trace ''processed''"
    by (simp add: example_names example_information_def)
  have m: "example_information \<in> set [example_information]" by simp
  from collective_write_of_present_path_raises
         [of example_output example_trace "''processed''" no_ids] example_present i m
  show ?thesis by blast
qed

text \<open>
  Two ranks that describe the same new data set in one synchronisation: the second
  collective write raises.
\<close>

lemma write_collective_twice:
  "\<exists>ds'. write_collective_all [example_information, example_information] empty_output
           = (Inl (RuntimeError ''Unable to create link (Name already exists)''), ds')"
  by (simp add: add_trace_write_collective_information_def example_information_def
      empty_output_def)

text \<open>
  In \<open>add_waveforms\<close> the describing step comes first: for a trace whose data set exists it
  warns and yields nothing, and the loop goes on to the next trace.
\<close>

lemma add_traces_skips_present_trace:
  "h5_contains (waveform_group ds) (station_name_of tr) (data_name_of tr tag) \<longrightarrow>
     fst (add_trace_get_collective_information ds tr tag ids) = None \<and>
     (\<exists>warning. add_traces tag ids [tr] ds
         = (Inr (), ds\<lparr>warnings_issued := warnings_issued ds @ [warning]\<rparr>)) \<and>
     (\<forall>info :: collective_information. info_station_name info = station_name_of tr \<and>
             p_name (info_dataset_creation_params info) = data_name_of tr tag \<longrightarrow>
        add_trace_write_collective_information info ds
          = (Inl (RuntimeError ''Unable to create link (Name already exists)''), ds))"
proof (intro impI conjI allI)
  assume p: "h5_contains (waveform_group ds) (station_name_of tr) (data_name_of tr tag)"
  note g = get_info_present [OF p]
  show "fst (add_trace_get_collective_information ds tr tag ids) = None" by (simp add: g)
  show "\<exists>warning. add_traces tag ids [tr] ds
         = (Inr (), ds\<lparr>warnings_issued := warnings_issued ds @ [warning]\<rparr>)"
    by (rule exI [of _ "''Data '' @ station_name_of tr @ ''/'' @ data_name_of tr tag
                 @ '' already exists in file. Will not be added!''"]) (simp add: g)
  fix info :: collective_information
  assume "info_station_name info = station_name_of tr \<and>
             p_name (info_dataset_creation_params info) = data_name_of tr tag"
  with p show "add_trace_write_collective_information info ds
          = (Inl (RuntimeError ''Unable to create link (Name already exists)''), ds)"
    by (simp add: write_collective_present)
qed

lemma add_waveforms_skips_present_trace:
  "h5_contains (waveform_group example_output) (station_name_of example_trace)
     (data_name_of example_trace ''processed'') \<and>
   fst (add_waveforms example_output (ATrace example_trace) ''processed'' NoId NoId NoId NoId)
     = Inr () \<and>
   waveform_group (snd (add_waveforms example_output (ATrace example_trace) ''processed''
                          NoId NoId NoId NoId))
     = waveform_group example_output"
proof -
  let ?ids = "[(''event_id'', None), (''origin_id'', None), (''magnitude_id'', None),
             (''focal_mechanism_id'', None)]"
  have a: "add_waveforms example_output (ATrace example_trace) ''processed'' NoId NoId NoId NoId
        = add_traces ''processed'' ?ids [example_trace] example_output"
    by (simp add: add_waveforms_def strip_lower_processed Let_def)
  note g = get_info_present [OF example_present, of ?ids]
  have b: "fst (add_traces ''processed'' ?ids [example_trace] example_output) = Inr ()"
    "waveform_group (snd (add_traces ''processed'' ?ids [example_trace] example_output))
       = waveform_group example_output"
    unfolding add_traces.simps g by simp_all
  from a b example_present show ?thesis by simp
qed

section \<open>The reserved tag\<close>

lemma normalise_id_Inl:
  "normalise_id name a = Inl e \<Longrightarrow> e = TypeError (''Invalid type for '' @ name @ ''.'')"
  by (cases "(name, a)" rule: normalise_id.cases) auto

lemma normalise_id_Inr:
  "a \<noteq> OtherId None \<Longrightarrow> \<exists>v. normalise_id name a = Inr v"
  by (cases "(name, a)" rule: normalise_id.cases) auto

lemma normalise_ids_TypeError:
  "normalise_ids xs = Inl e \<Longrightarrow> \<exists>name. e = TypeError (''Invalid type for '' @ name @ ''.'')"
proof (induction xs)
  case Nil
  then show ?case by simp
next
  case (Cons x xs)
  obtain name a where x: "x = (name, a)" by (cases x)
  show ?case
  proof (cases "normalise_id name a")
    case (Inl e')
    with Cons.prems x have "e = e'" by simp
    with normalise_id_Inl [OF Inl] show ?thesis by blast
  next
    case (Inr v)
    with Cons.prems x have "normalise_ids xs = Inl e" by (auto split: sum.splits)
    then show ?thesis by (rule Cons.IH)
  qed
qed

lemma normalise_ids_valid:
  "\<forall>x \<in> set xs. snd x \<noteq> OtherId None \<Longrightarrow> \<exists>ids. normalise_ids xs = Inr ids"
proof (induction xs)
  case Nil
  then show ?case by simp
next
  case (Cons x xs)
  obtain name a where x: "x = (name, a)" by (cases x)
  from Cons.prems x have "a \<noteq> OtherId None" by simp
  from normalise_id_Inr [OF this] obtain v where "normalise_id name a = Inr v" by blast
  moreover from Cons obtain ids where "normalise_ids xs = Inr ids" by auto
  ultimately show ?case using x by simp
qed

text \<open>
  Claim C10, as amended. For a tag whose stripped, lower-cased form is \<open>stationxml\<close>,
  \<open>add_waveforms\<close> raises before it reads or writes any trace, whatever the waveform
  argument is, and leaves the file unchanged. The error is the \<open>ValueError\<close> of the tag
  check unless one of the four id arguments has an invalid type: the ids are checked
  first and raise \<open>TypeError\<close>.
\<close>

theorem add_waveforms_rejects_stationxml:
  "py_lower (py_strip tag) = ''stationxml'' \<longrightarrow>
     (\<exists>e. add_waveforms ds waveform tag event_id origin_id magnitude_id focal_mechanism_id
             = (Inl e, ds) \<and>
          (e = ValueError (''Tag '' @ py_strip tag @ '' is invalid.'') \<or>
           (\<exists>name. e = TypeError (''Invalid type for '' @ name @ ''.'')))) \<and>
     (OtherId None \<notin> {event_id, origin_id, magnitude_id, focal_mechanism_id} \<longrightarrow>
        add_waveforms ds waveform tag event_id origin_id magnitude_id focal_mechanism_id
          = (Inl (ValueError (''Tag '' @ py_strip tag @ '' is invalid.'')), ds))"
proof (intro impI conjI)
  let ?xs = "[(''event_id'', event_id), (''origin_id'', origin_id),
              (''magnitude_id'', magnitude_id), (''focal_mechanism_id'', focal_mechanism_id)]"
  assume t: "py_lower (py_strip tag) = ''stationxml''"
  show "\<exists>e. add_waveforms ds waveform tag event_id origin_id magnitude_id focal_mechanism_id
             = (Inl e, ds) \<and>
          (e = ValueError (''Tag '' @ py_strip tag @ '' is invalid.'') \<or>
           (\<exists>name. e = TypeError (''Invalid type for '' @ name @ ''.'')))"
  proof (cases "normalise_ids ?xs")
    case (Inl e)
    from normalise_ids_TypeError [OF Inl] Inl show ?thesis
      by (simp add: add_waveforms_def)
  next
    case (Inr ids)
    with t show ?thesis by (simp add: add_waveforms_def Let_def)
  qed
  assume "OtherId None \<notin> {event_id, origin_id, magnitude_id, focal_mechanism_id}"
  then have "\<forall>x \<in> set ?xs. snd x \<noteq> OtherId None" by auto
  from normalise_ids_valid [OF this] obtain ids where "normalise_ids ?xs = Inr ids" by blast
  with t show "add_waveforms ds waveform tag event_id origin_id magnitude_id focal_mechanism_id
          = (Inl (ValueError (''Tag '' @ py_strip tag @ '' is invalid.'')), ds)"
    by (simp add: add_waveforms_def Let_def)
qed

lemma strip_lower_stationxml:
  "py_strip '' StationXML '' = ''StationXML''" "py_lower ''StationXML'' = ''stationxml''"
  by (simp_all add: py_strip_def py_isspace_def py_lower_def py_lower_char_def upper_case_def lower_case_def)

theorem add_waveforms_rejects_stationxml_witness:
  "py_lower (py_strip '' StationXML '') = ''stationxml'' \<and>
   add_waveforms example_output (Readable (Inr [example_trace])) '' StationXML ''
       (ResourceIdentifier ''smi:local/ev'') NoId NoId NoId
     = (Inl (ValueError ''Tag StationXML is invalid.''), example_output)"
proof -
  have t: "py_lower (py_strip '' StationXML '') = ''stationxml''"
    by (simp add: strip_lower_stationxml)
  have i: "OtherId None \<notin> {ResourceIdentifier ''smi:local/ev'', NoId, NoId, NoId}" by simp
  from add_waveforms_rejects_stationxml
         [of "'' StationXML ''" example_output "Readable (Inr [example_trace])"
             "ResourceIdentifier ''smi:local/ev''" NoId NoId NoId] t i
  have "add_waveforms example_output (Readable (Inr [example_trace])) '' StationXML ''
       (ResourceIdentifier ''smi:local/ev'') NoId NoId NoId
     = (Inl (ValueError (''Tag '' @ py_strip '' StationXML '' @ '' is invalid.'')), example_output)"
    by blast
  with t show ?thesis by (simp add: strip_lower_stationxml)
qed

lemma strip_lower_StationXML:
  "py_strip ''StationXML'' = ''StationXML''" "py_lower ''StationXML'' = ''stationxml''"
  by (simp_all add: py_strip_def py_isspace_def py_lower_def py_lower_char_def
      upper_case_def lower_case_def)

lemma forced_write_under_StationXML:
  "fst (worker_forced_write [''raw'' \<mapsto> ''StationXML''] (\<lambda>stream. ''1 Trace(s) in Stream'')
          [[None]] [] buffering_worker empty_output) = Inr ()"
  "map (map fst \<circ> snd) (waveform_group (snd (snd
      (worker_forced_write [''raw'' \<mapsto> ''StationXML''] (\<lambda>stream. ''1 Trace(s) in Stream'')
          [[None]] [] buffering_worker empty_output))))
     = [[''XX.A..BHZ__2014-01-01T00:00:00__2014-01-01T00:00:01__StationXML'']]"
proof -
  let ?name = "''XX.A..BHZ__2014-01-01T00:00:00__2014-01-01T00:00:01__StationXML''"
  let ?info = "\<lparr>info_station_name = ''XX.A'',
            info_data_name = ''XX.A/XX.A..BHZ__2014-01-01T00:00:00__2014-01-01T00:00:01__StationXML'',
            info_dataset_creation_params =
              \<lparr>p_name = ?name,
               p_shape = 2, p_dtype = ''float32'', p_compression = None,
               p_compression_opts = None, p_fletcher32 = False\<rparr>,
            info_dataset_attrs = [(''starttime'', IntAttr 1388534400000000000),
                                  (''sampling_rate'', FloatAttr 1)]\<rparr>"
  let ?buffer = "[((''XX.A'', ''raw''), [example_trace\<lparr>tr_info := Some ?info\<rparr>])]"
  let ?ds = "\<lparr>ds_shape = 2, ds_dtype = ''float32'', ds_compression = None,
              ds_compression_opts = None, ds_fletcher32 = False,
              ds_attrs = [(''starttime'', IntAttr 1388534400000000000),
                          (''sampling_rate'', FloatAttr 1)],
              ds_data = [0, 0]\<rparr>"
  let ?out1 = "empty_output\<lparr>waveform_group := [(''XX.A'', [(?name, ?ds)])]\<rparr>"
  let ?out2 = "empty_output\<lparr>waveform_group := [(''XX.A'', [(?name, ?ds\<lparr>ds_data := [1, 2]\<rparr>)])]\<rparr>"
  have g: "add_trace_get_collective_information empty_output example_trace ''StationXML'' no_ids
             = (Some ?info, empty_output)"
    by (simp add: add_trace_get_collective_information_def station_name_of_def data_name_of_def
        h5_contains_def empty_output_def id_attrs_def no_ids_def Let_def)
      (simp add: example_trace_def)
  have d: "describe_buffer [''raw'' \<mapsto> ''StationXML''] (stream_buffer buffering_worker) empty_output
             = (Inr (?buffer, [Some ?info]), empty_output)"
    by (simp add: buffering_worker_def g)
  have w: "write_collective_all [?info] empty_output = (Inr (), ?out1)"
    by (simp add: add_trace_write_collective_information_def empty_output_def numeral_2_eq_2)
  have s: "sync_metadata [''raw'' \<mapsto> ''StationXML''] [[None]] [] (stream_buffer buffering_worker)
             empty_output = (Inr ?buffer, ?out1)"
    unfolding sync_metadata_def d by (simp add: w del: write_collective_all.simps)
  have i: "write_independent_traces [example_trace\<lparr>tr_info := Some ?info\<rparr>] ?out1 = (Inr (), ?out2)"
    by (simp add: add_trace_write_independent_information_def empty_output_def example_trace_def)
  have f: "worker_forced_write [''raw'' \<mapsto> ''StationXML''] (\<lambda>stream. ''1 Trace(s) in Stream'')
          [[None]] [] buffering_worker empty_output
           = (Inr (), buffering_worker\<lparr>stream_buffer := [], waiting_for_write := False,
                 w_sent := [(DonePayload (''XX.A'', ''raw'') (Some ''1 Trace(s) in Stream''),
                             WORKER_DONE_WITH_ITEM)]\<rparr>, ?out2)"
    unfolding worker_forced_write_def s
    by (simp add: i del: write_independent_traces.simps)
      (simp add: buffering_worker_def worker_node_init_def)
  show "fst (worker_forced_write [''raw'' \<mapsto> ''StationXML''] (\<lambda>stream. ''1 Trace(s) in Stream'')
          [[None]] [] buffering_worker empty_output) = Inr ()"
    unfolding f by simp
  show "map (map fst \<circ> snd) (waveform_group (snd (snd
      (worker_forced_write [''raw'' \<mapsto> ''StationXML''] (\<lambda>stream. ''1 Trace(s) in Stream'')
          [[None]] [] buffering_worker empty_output))))
     = [[?name]]"
    unfolding f by simp
qed

text \<open>
  Claim C10, as stated, fails. With an \<open>event_id\<close> of an invalid type the call raises
  \<open>TypeError\<close>, not \<open>ValueError\<close>. And a data set of tag \<open>StationXML\<close> can be written all
  the same: a worker's forced write takes the tag from the tag map and checks nothing.
\<close>

theorem add_waveforms_stationxml_counterexample:
  "py_lower (py_strip ''StationXML'') = ''stationxml'' \<and>
   add_waveforms example_output (ATrace example_trace) ''StationXML'' (OtherId None) NoId NoId NoId
     = (Inl (TypeError ''Invalid type for event_id.''), example_output) \<and>
   fst (worker_forced_write [''raw'' \<mapsto> ''StationXML''] (\<lambda>stream. ''1 Trace(s) in Stream'')
          [[None]] [] buffering_worker empty_output) = Inr () \<and>
   map (map fst \<circ> snd) (waveform_group (snd (snd
      (worker_forced_write [''raw'' \<mapsto> ''StationXML''] (\<lambda>stream. ''1 Trace(s) in Stream'')
          [[None]] [] buffering_worker empty_output))))
     = [[''XX.A..BHZ__2014-01-01T00:00:00__2014-01-01T00:00:01__StationXML'']] \<and>
   tag_of_name ''XX.A..BHZ__2014-01-01T00:00:00__2014-01-01T00:00:01__StationXML'' = ''StationXML''"
proof -
  have a: "add_waveforms example_output (ATrace example_trace) ''StationXML'' (OtherId None)
             NoId NoId NoId = (Inl (TypeError ''Invalid type for event_id.''), example_output)"
    by (simp add: add_waveforms_def)
  have t: "tag_of_name ''XX.A..BHZ__2014-01-01T00:00:00__2014-01-01T00:00:01__StationXML''
             = ''StationXML''"
    by (simp add: tag_of_name_def)
  from a t forced_write_under_StationXML strip_lower_StationXML show ?thesis by simp
qed

section \<open>The checks of process\<close>





text \<open>
  A file with station information and one waveform data set of tag \<open>raw\<close> for one
  station: the job list is that one pair when \<open>raw\<close> is a key of the tag map, and
  \<open>process\<close> raises when it is not.
\<close>

lemma process_checks_example:
  "process_checks False
     (empty_output\<lparr>waveform_group :=
        [(''XX.A'', [(''StationXML'', example_dataset),
                     (''XX.A..BHZ__2014-01-01T00:00:00__2014-01-01T00:00:01__raw'',
                      example_dataset)])]\<rparr>)
     [''raw'' \<mapsto> ''processed''] = Inr [(''XX.A'', ''raw'')]"
  "process_checks False
     (empty_output\<lparr>waveform_group :=
        [(''XX.A'', [(''StationXML'', example_dataset),
                     (''XX.A..BHZ__2014-01-01T00:00:00__2014-01-01T00:00:01__raw'',
                      example_dataset)])]\<rparr>)
     [''synthetic'' \<mapsto> ''processed'']
     = Inl (ValueError ''No data matching the tag map found.'')"
  by (simp_all add: process_checks_def process_station_tags_def get_station_list_def
      station_tags_of_station_def tag_of_name_def)


section \<open>Seeding the local queue\<close>

lemma queue_put_all_fits:
  "maxsize q \<le> 0 \<or> int (length (queue_items q) + length xs) \<le> maxsize q \<Longrightarrow>
     queue_put_all xs q = Some (q\<lparr>queue_items := queue_items q @ xs\<rparr>)"
proof (induction xs arbitrary: q)
  case Nil
  then show ?case by simp
next
  case (Cons x xs)
  from Cons.prems have p: "queue_put x q = Some (q\<lparr>queue_items := queue_items q @ [x]\<rparr>)"
    by (auto simp: queue_put_def)
  let ?q = "q\<lparr>queue_items := queue_items q @ [x]\<rparr>"
  from Cons.prems have "maxsize ?q \<le> 0 \<or> int (length (queue_items ?q) + length xs) \<le> maxsize ?q"
    by auto
  from Cons.IH [OF this] p show ?case by simp
qed

lemma maxsize_bound: "int m \<le> \<lceil>1.1 * real m\<rceil>"
proof -
  have "real m \<le> 1.1 * real m" by simp
  then have "real_of_int (int m) \<le> 1.1 * real m" by simp
  then show ?thesis by (simp add: le_ceiling_iff)
qed

text \<open>
  Claim C9. For every job list the local scheduler creates \<open>min(hardware threads, jobs)\<close>
  worker processes, and seeds the input queue with the jobs in order followed by one
  \<open>POISON_PILL\<close> per worker; no \<open>put\<close> blocks.
\<close>

theorem local_scheduler_seeding:
  "dispatch_processing_multiprocessing hardware_threads station_tags =
     Some \<lparr>cpu_count = min hardware_threads (length station_tags),
           input_queue =
             \<lparr>maxsize = \<lceil>1.1 * real (length station_tags
                                        + min hardware_threads (length station_tags))\<rceil>,
              queue_items = map Item station_tags
                 @ replicate (min hardware_threads (length station_tags)) POISON_PILL\<rparr>,
           processes = min hardware_threads (length station_tags)\<rparr>"
proof -
  let ?c = "min hardware_threads (length station_tags)"
  let ?q0 = "\<lparr>maxsize = \<lceil>1.1 * real (length station_tags + ?c)\<rceil>,
              queue_items = [] :: (string \<times> string) item list\<rparr>"
  note b = maxsize_bound [of "length station_tags + ?c"]
  have 1: "queue_put_all (map Item station_tags) ?q0
             = Some (?q0\<lparr>queue_items := map Item station_tags\<rparr>)"
    using b queue_put_all_fits [of ?q0 "map Item station_tags"] by simp
  let ?q1 = "?q0\<lparr>queue_items := map Item station_tags\<rparr>"
  have 2: "queue_put_all (replicate ?c POISON_PILL) ?q1
             = Some (?q1\<lparr>queue_items := map Item station_tags @ replicate ?c POISON_PILL\<rparr>)"
    using b queue_put_all_fits [of ?q1 "replicate ?c POISON_PILL"] by simp
  from 1 2 show ?thesis
    by (simp add: dispatch_processing_multiprocessing_def Let_def)
qed

section \<open>A job whose processing function raises\<close>

lemma failed_job_worker_eq:
  "failed_job_worker =
     \<lparr>stream_buffer = [((''XX.A'', ''raw''), [example_trace])],
      w_poison_pill_received = False, waiting_for_write = False, waiting_for_item = False,
      w_sent = [],
      w_printed = [''Error during processing function. Will be skipped: boom'']\<rparr>"
  by (simp add: failed_job_worker_def worker_handle_item_def example_input_def
      failing_function_def worker_node_init_def)

lemma example_info:
  "add_trace_get_collective_information empty_output example_trace ''processed'' no_ids =
     (Some \<lparr>info_station_name = ''XX.A'',
            info_data_name = ''XX.A/XX.A..BHZ__2014-01-01T00:00:00__2014-01-01T00:00:01__processed'',
            info_dataset_creation_params =
              \<lparr>p_name = ''XX.A..BHZ__2014-01-01T00:00:00__2014-01-01T00:00:01__processed'',
               p_shape = 2, p_dtype = ''float32'', p_compression = None,
               p_compression_opts = None, p_fletcher32 = False\<rparr>,
            info_dataset_attrs = [(''starttime'', IntAttr 1388534400000000000),
                                  (''sampling_rate'', FloatAttr 1)]\<rparr>, empty_output)"
  by (simp add: add_trace_get_collective_information_def example_names h5_contains_def
      empty_output_def id_attrs_def no_ids_def Let_def)
    (simp add: example_trace_def)

text \<open>
  Claim C1 on the code. The worker is sent the job \<open>(XX.A, raw)\<close> and the processing
  function raises. The worker prints that the job will be skipped, and yet puts the
  stream into its buffer; at the next forced write the stream is written to the output
  file under the renamed tag. In the local scheduler the same exception is not caught:
  it leaves the worker's \<open>run\<close>, and nothing is written.
\<close>

theorem worker_buffers_stream_of_failed_job:
  "w_printed failed_job_worker = [''Error during processing function. Will be skipped: boom''] \<and>
   map_of (stream_buffer failed_job_worker) (''XX.A'', ''raw'') = Some [example_trace] \<and>
   fst (worker_forced_write [''raw'' \<mapsto> ''processed''] (\<lambda>stream. ''1 Trace(s) in Stream'')
          [[None]] [] failed_job_worker empty_output) = Inr () \<and>
   h5_contains (waveform_group (snd (snd
      (worker_forced_write [''raw'' \<mapsto> ''processed''] (\<lambda>stream. ''1 Trace(s) in Stream'')
          [[None]] [] failed_job_worker empty_output))))
      ''XX.A'' ''XX.A..BHZ__2014-01-01T00:00:00__2014-01-01T00:00:01__processed'' \<and>
   process_run_item example_input failing_function [''raw'' \<mapsto> ''processed'']
      (''XX.A'', ''raw'') empty_output = (Inl (UserException ''boom''), empty_output)"
proof -
  let ?name = "''XX.A..BHZ__2014-01-01T00:00:00__2014-01-01T00:00:01__processed''"
  let ?info = "\<lparr>info_station_name = ''XX.A'',
            info_data_name = ''XX.A/XX.A..BHZ__2014-01-01T00:00:00__2014-01-01T00:00:01__processed'',
            info_dataset_creation_params =
              \<lparr>p_name = ?name,
               p_shape = 2, p_dtype = ''float32'', p_compression = None,
               p_compression_opts = None, p_fletcher32 = False\<rparr>,
            info_dataset_attrs = [(''starttime'', IntAttr 1388534400000000000),
                                  (''sampling_rate'', FloatAttr 1)]\<rparr>"
  let ?buffer = "[((''XX.A'', ''raw''), [example_trace\<lparr>tr_info := Some ?info\<rparr>])]"
  let ?ds = "\<lparr>ds_shape = 2, ds_dtype = ''float32'', ds_compression = None,
              ds_compression_opts = None, ds_fletcher32 = False,
              ds_attrs = [(''starttime'', IntAttr 1388534400000000000),
                          (''sampling_rate'', FloatAttr 1)],
              ds_data = [0, 0]\<rparr>"
  let ?out1 = "empty_output\<lparr>waveform_group := [(''XX.A'', [(?name, ?ds)])]\<rparr>"
  let ?out2 = "empty_output\<lparr>waveform_group := [(''XX.A'', [(?name, ?ds\<lparr>ds_data := [1, 2]\<rparr>)])]\<rparr>"
  have d: "describe_buffer [''raw'' \<mapsto> ''processed''] (stream_buffer failed_job_worker) empty_output
             = (Inr (?buffer, [Some ?info]), empty_output)"
    by (simp add: failed_job_worker_eq example_info)
  have w: "write_collective_all [?info] empty_output = (Inr (), ?out1)"
    by (simp add: add_trace_write_collective_information_def empty_output_def numeral_2_eq_2)
  have s: "sync_metadata [''raw'' \<mapsto> ''processed''] [[None]] [] (stream_buffer failed_job_worker)
             empty_output = (Inr ?buffer, ?out1)"
    unfolding sync_metadata_def d by (simp add: w del: write_collective_all.simps)
  have i: "write_independent_traces [example_trace\<lparr>tr_info := Some ?info\<rparr>] ?out1 = (Inr (), ?out2)"
    by (simp add: add_trace_write_independent_information_def empty_output_def example_trace_def)
  have f: "worker_forced_write [''raw'' \<mapsto> ''processed''] (\<lambda>stream. ''1 Trace(s) in Stream'')
          [[None]] [] failed_job_worker empty_output
           = (Inr (), failed_job_worker\<lparr>stream_buffer := [], waiting_for_write := False,
                 w_sent := [(DonePayload (''XX.A'', ''raw'') (Some ''1 Trace(s) in Stream''),
                             WORKER_DONE_WITH_ITEM)]\<rparr>, ?out2)"
    unfolding worker_forced_write_def s
    by (simp add: i del: write_independent_traces.simps) (simp add: failed_job_worker_eq)
  have p: "process_run_item example_input failing_function [''raw'' \<mapsto> ''processed'']
      (''XX.A'', ''raw'') empty_output = (Inl (UserException ''boom''), empty_output)"
    by (simp add: process_run_item_def example_input_def failing_function_def)
  have h: "h5_contains (waveform_group ?out2) ''XX.A'' ?name"
    by (simp add: h5_contains_def)
  show ?thesis
    unfolding f using p h by (simp add: failed_job_worker_eq)
qed

end
